theory Spec2Isabelle
  imports Complex_Main "HOL-Library.Log_Nat"
begin

section \<open>The board engine (class TicTacToe of main.py)\<close>

text \<open>
  The enumeration \<^verbatim>\<open>TicPieceState\<close> has the three members Check, Circle and Empty, whose
  values are the strings "Check", "Circle" and "-". \<^verbatim>\<open>GameState\<close> has the members Circle,
  Check, Draw and Playing; its constructors carry a suffix here because the first two names
  are already taken by the pieces.
\<close>

datatype TicPieceState = Check | Circle | Empty

datatype GameState = Circle_state | Check_state | Draw | Playing

fun piece_value :: "TicPieceState \<Rightarrow> string" where
  "piece_value Check = ''Check''"
| "piece_value Circle = ''Circle''"
| "piece_value Empty = ''-''"

fun state_value :: "GameState \<Rightarrow> string" where
  "state_value Circle_state = ''Circle''"
| "state_value Check_state = ''Check''"
| "state_value Draw = ''Draw''"
| "state_value Playing = ''Playing''"

datatype error = MaxSizeException | ValueError

text \<open>
  An instance of \<^verbatim>\<open>TicTacToe\<close>: the attribute \<^verbatim>\<open>size\<close> (a Python int) and the attribute
  \<^verbatim>\<open>board\<close>, a list of rows, each row a list of cells. Every row is a list object of its
  own (the constructor builds them in a nested comprehension), so rows do not alias.
\<close>

record TicTacToe =
  size_n :: int
  board :: "TicPieceState list list"

text \<open>\<^verbatim>\<open>__init__\<close>: raises MaxSizeException outside 3..25, otherwise an all-Empty grid.\<close>

definition TicTacToe_init :: "int \<Rightarrow> error + TicTacToe" where
  "TicTacToe_init sz =
     (if sz < 3 \<or> sz > 25 then Inl MaxSizeException
      else Inr \<lparr> size_n = sz,
                 board = map (\<lambda>_. map (\<lambda>_. Empty) [0..<nat sz]) [0..<nat sz] \<rparr>)"

text \<open>
  The class invariant: \<^verbatim>\<open>size\<close> is in 3..25 and the grid is \<^verbatim>\<open>size\<close> rows of \<^verbatim>\<open>size\<close>
  cells. The constructor establishes it and both writing methods keep it (proved below), so
  under it every subscript \<^verbatim>\<open>self.board[i][j]\<close> the methods evaluate is in range and no
  IndexError can arise.
\<close>

definition wf_board :: "TicTacToe \<Rightarrow> bool" where
  "wf_board t \<longleftrightarrow>
     3 \<le> size_n t \<and> size_n t \<le> 25 \<and>
     length (board t) = nat (size_n t) \<and>
     list_all (\<lambda>row. length row = nat (size_n t)) (board t)"

text \<open>
  \<^verbatim>\<open>is_coordinate_valid\<close>: the chained comparisons come first, so the cell is read only for
  coordinates in range (Python's \<^verbatim>\<open>and\<close> is short-circuit; negative subscripts are never
  reached).
\<close>

definition is_coordinate_valid :: "TicTacToe \<Rightarrow> int \<Rightarrow> int \<Rightarrow> bool" where
  "is_coordinate_valid t x y \<longleftrightarrow>
     0 \<le> x \<and> x < size_n t \<and> 0 \<le> y \<and> y < size_n t \<and>
     board t ! nat x ! nat y = Empty"

text \<open>\<^verbatim>\<open>place_piece\<close> returns its boolean together with the object after the call.\<close>

definition place_piece :: "TicTacToe \<Rightarrow> int \<Rightarrow> int \<Rightarrow> TicPieceState \<Rightarrow> bool \<times> TicTacToe" where
  "place_piece t x y piece =
     (if \<not> is_coordinate_valid t x y then (False, t)
      else (True, t\<lparr> board := (board t)[nat x := (board t ! nat x)[nat y := piece]] \<rparr>))"

text \<open>
  \<^verbatim>\<open>check_win\<close>: one loop over \<^verbatim>\<open>i\<close> testing row \<^verbatim>\<open>i\<close> and then column \<^verbatim>\<open>i\<close>, followed by
  the diagonal and the anti-diagonal.
\<close>

fun check_win_lines :: "TicPieceState list list \<Rightarrow> nat \<Rightarrow> TicPieceState \<Rightarrow> nat list \<Rightarrow> bool" where
  "check_win_lines b n piece [] = False"
| "check_win_lines b n piece (i # is) =
     (if list_all (\<lambda>j. b ! i ! j = piece) [0..<n] then True
      else if list_all (\<lambda>j. b ! j ! i = piece) [0..<n] then True
      else check_win_lines b n piece is)"

definition check_win :: "TicTacToe \<Rightarrow> TicPieceState \<Rightarrow> bool" where
  "check_win t piece =
     (let n = nat (size_n t); b = board t in
      if check_win_lines b n piece [0..<n] then True
      else if list_all (\<lambda>i. b ! i ! i = piece) [0..<n] then True
      else if list_all (\<lambda>i. b ! i ! (n - i - 1) = piece) [0..<n] then True
      else False)"

text \<open>
  \<^verbatim>\<open>check_game_status\<close>: the loop over the rows, the loop over the columns (each returning
  from inside the loop, Circle tested before Check), then \<^verbatim>\<open>check_win\<close> for Circle and for
  Check, then the test for a full board. The two loops yield \<open>None\<close> when they fall through.
\<close>

fun status_rows :: "TicPieceState list list \<Rightarrow> GameState option" where
  "status_rows [] = None"
| "status_rows (row # rows) =
     (if list_all (\<lambda>cell. cell = Circle) row then Some Circle_state
      else if list_all (\<lambda>cell. cell = Check) row then Some Check_state
      else status_rows rows)"

fun status_cols :: "TicPieceState list list \<Rightarrow> nat list \<Rightarrow> GameState option" where
  "status_cols b [] = None"
| "status_cols b (col # cols) =
     (if list_all (\<lambda>row. row ! col = Circle) b then Some Circle_state
      else if list_all (\<lambda>row. row ! col = Check) b then Some Check_state
      else status_cols b cols)"

definition check_game_status :: "TicTacToe \<Rightarrow> GameState" where
  "check_game_status t =
     (case status_rows (board t) of
        Some g \<Rightarrow> g
      | None \<Rightarrow>
         (case status_cols (board t) [0..<nat (size_n t)] of
            Some g \<Rightarrow> g
          | None \<Rightarrow>
             if check_win t Circle then Circle_state
             else if check_win t Check then Check_state
             else if list_all (\<lambda>cell. cell \<noteq> Empty) (concat (board t)) then Draw
             else Playing))"

text \<open>
  \<^verbatim>\<open>place_random_piece\<close>: the list of Empty coordinates in row-major order, and
  \<^verbatim>\<open>random.choice\<close> on it. The generator's draw is the parameter \<open>r\<close>; \<^verbatim>\<open>random.choice\<close>
  returns the element at an index below the length, here \<open>r mod length\<close>, so every
  outcome of the call is the model's result for some \<open>r\<close>.
\<close>

definition empty_cells :: "TicTacToe \<Rightarrow> (nat \<times> nat) list" where
  "empty_cells t =
     concat (map (\<lambda>i. map (\<lambda>j. (i, j))
                         (filter (\<lambda>j. board t ! i ! j = Empty) [0..<nat (size_n t)]))
                 [0..<nat (size_n t)])"

definition place_random_piece :: "TicTacToe \<Rightarrow> TicPieceState \<Rightarrow> nat \<Rightarrow> bool \<times> TicTacToe" where
  "place_random_piece t piece r =
     (let cells = empty_cells t in
      if cells \<noteq> [] then
        (case cells ! (r mod length cells) of
           (x, y) \<Rightarrow> (True, t\<lparr> board := (board t)[x := (board t ! x)[y := piece]] \<rparr>))
      else (False, t))"

text \<open>
  Any sequence of calls of the two writing methods on one board: \<open>Place x y piece\<close> is
  \<^verbatim>\<open>place_piece(x, y, piece)\<close>, \<open>PlaceRandom piece r\<close> is \<^verbatim>\<open>place_random_piece(piece)\<close>
  with the generator drawing \<open>r\<close>.
\<close>

datatype board_op = Place int int TicPieceState | PlaceRandom TicPieceState nat

fun apply_op :: "TicTacToe \<Rightarrow> board_op \<Rightarrow> TicTacToe" where
  "apply_op t (Place x y piece) = snd (place_piece t x y piece)"
| "apply_op t (PlaceRandom piece r) = snd (place_random_piece t piece r)"

fun apply_ops :: "TicTacToe \<Rightarrow> board_op list \<Rightarrow> TicTacToe" where
  "apply_ops t [] = t"
| "apply_ops t (bop # ops) = apply_ops (apply_op t bop) ops"

definition occupied :: "TicTacToe \<Rightarrow> (nat \<times> nat) set" where
  "occupied t =
     set (filter (\<lambda>(i, j). board t ! i ! j \<noteq> Empty)
            (List.product [0..<nat (size_n t)] [0..<nat (size_n t)]))"

text \<open>The board \<^verbatim>\<open>TicTacToe(3)\<close> right after construction, used for concrete runs.\<close>

definition fresh3 :: TicTacToe where
  "fresh3 = \<lparr> size_n = 3,
              board = [[Empty, Empty, Empty], [Empty, Empty, Empty], [Empty, Empty, Empty]] \<rparr>"

text \<open>
  The outcome as the specification words it, to compare \<^verbatim>\<open>check_game_status\<close> with: a mark
  has a winning line when some full row, some full column, the diagonal or the
  anti-diagonal consists entirely of that mark (\<open>row_of\<close> and \<open>col_of\<close> are the first two
  alternatives); and the board has no Empty cell.
\<close>

definition row_of :: "TicTacToe \<Rightarrow> TicPieceState \<Rightarrow> bool" where
  "row_of t m \<longleftrightarrow>
     (\<exists>i \<in> {0..<nat (size_n t)}. \<forall>j \<in> {0..<nat (size_n t)}. board t ! i ! j = m)"

definition col_of :: "TicTacToe \<Rightarrow> TicPieceState \<Rightarrow> bool" where
  "col_of t m \<longleftrightarrow>
     (\<exists>j \<in> {0..<nat (size_n t)}. \<forall>i \<in> {0..<nat (size_n t)}. board t ! i ! j = m)"

definition has_line :: "TicTacToe \<Rightarrow> TicPieceState \<Rightarrow> bool" where
  "has_line t m \<longleftrightarrow>
     row_of t m \<or> col_of t m \<or>
     (\<forall>i \<in> {0..<nat (size_n t)}. board t ! i ! i = m) \<or>
     (\<forall>i \<in> {0..<nat (size_n t)}. board t ! i ! (nat (size_n t) - i - 1) = m)"

definition no_empty_cell :: "TicTacToe \<Rightarrow> bool" where
  "no_empty_cell t \<longleftrightarrow>
     (\<forall>i \<in> {0..<nat (size_n t)}. \<forall>j \<in> {0..<nat (size_n t)}. board t ! i ! j \<noteq> Empty)"

text \<open>
  Two boards of size 3 for concrete runs: one with a full Circle row above a full Check row,
  and one that is full with no winning line.
\<close>

definition both_rows :: TicTacToe where
  "both_rows = \<lparr> size_n = 3,
      board = [[Circle, Circle, Circle], [Check, Check, Check], [Empty, Empty, Empty]] \<rparr>"

definition drawn3 :: TicTacToe where
  "drawn3 = \<lparr> size_n = 3,
      board = [[Check, Circle, Check], [Check, Circle, Circle], [Circle, Check, Check]] \<rparr>"

section \<open>The snapshot (method get_board) and its wire format\<close>

text \<open>
  \<^verbatim>\<open>get_board\<close> is \<^verbatim>\<open>json.dumps\<close> of the list of rows of the cells' enumeration values. With
  its default separators \<^verbatim>\<open>json.dumps\<close> writes a list as its items joined by a comma and a
  space between square brackets, and a string between double quotes; the three values
  "Check", "Circle" and "-" contain no character that it would escape. The method assigns
  nothing to \<^verbatim>\<open>self\<close>: it is a function of the board.
\<close>

definition dquote :: char where
  "dquote = CHR 0x22"

fun join_str :: "string \<Rightarrow> string list \<Rightarrow> string" where
  "join_str sep [] = []"
| "join_str sep [x] = x"
| "join_str sep (x # y # ys) = x @ sep @ join_str sep (y # ys)"

definition json_string :: "string \<Rightarrow> string" where
  "json_string s = dquote # s @ [dquote]"

definition json_list :: "string list \<Rightarrow> string" where
  "json_list items = ''['' @ join_str '', '' items @ '']''"

definition json_dumps :: "string list list \<Rightarrow> string" where
  "json_dumps grid = json_list (map (\<lambda>row. json_list (map json_string row)) grid)"

definition get_board :: "TicTacToe \<Rightarrow> string" where
  "get_board t = json_dumps (map (\<lambda>row. map piece_value row) (board t))"








section \<open>The session service (module-level code of main.py)\<close>

text \<open>
  Python's \<^verbatim>\<open>str.replace(old, new)\<close>: the occurrences of \<open>old\<close> are found from left to
  right and do not overlap. For an empty \<open>old\<close> Python puts \<open>new\<close> before every character
  and at the end.
\<close>

function (sequential) replace_str :: "string \<Rightarrow> string \<Rightarrow> string \<Rightarrow> string" where
  "replace_str old new [] = (if old = [] then new else [])"
| "replace_str old new (c # cs) =
     (if old = [] then new @ c # replace_str old new cs
      else if take (length old) (c # cs) = old
        then new @ replace_str old new (drop (length old) (c # cs))
      else c # replace_str old new cs)"
  by pat_completeness auto
termination
  by (relation "measure (\<lambda>(old, new, s). length s)") auto

text \<open>
  Python's subtraction of two floats. A float is an IEEE 754 double: an integer of at most
  53 bits times a power of two, its quantum. At a magnitude from \<^verbatim>\<open>2**e\<close> up to but not
  including \<^verbatim>\<open>2**(e+1)\<close> the quantum is \<^verbatim>\<open>2**(e-52)\<close>, and it is never below
  \<^verbatim>\<open>2**(-1074)\<close>. From 1 on, the integer part of the magnitude has \<^verbatim>\<open>e+1\<close> bits; below 1
  the same count is made on the magnitude in units of \<^verbatim>\<open>2**(-1074)\<close>. The subtraction
  returns the exact difference rounded to the nearest multiple of the quantum, a tie going
  to the even multiple. A timestamp is taken as the real number the double stands for. A
  difference beyond the largest double would be an infinity in Python, which compares with
  600 as the large value computed here does; \<^verbatim>\<open>time.time()\<close> returns neither an infinity
  nor a NaN.
\<close>

definition round_half_even :: "real \<Rightarrow> int" where
  "round_half_even m =
     (if m - of_int \<lfloor>m\<rfloor> < 1 / 2 then \<lfloor>m\<rfloor>
      else if 1 / 2 < m - of_int \<lfloor>m\<rfloor> then \<lfloor>m\<rfloor> + 1
      else if even \<lfloor>m\<rfloor> then \<lfloor>m\<rfloor> else \<lfloor>m\<rfloor> + 1)"

definition quantum :: "real \<Rightarrow> real" where
  "quantum a =
     (if 1 \<le> a then 2 ^ nat (bitlen \<lfloor>a\<rfloor> - 53) / 2 ^ nat (53 - bitlen \<lfloor>a\<rfloor>)
      else 2 ^ nat (bitlen \<lfloor>a * 2 ^ 1074\<rfloor> - 53) / 2 ^ 1074)"

definition double_round :: "real \<Rightarrow> real" where
  "double_round v = sgn v * (of_int (round_half_even (\<bar>v\<bar> / quantum \<bar>v\<bar>)) * quantum \<bar>v\<bar>)"

definition float_sub :: "real \<Rightarrow> real \<Rightarrow> real" where
  "float_sub a b = double_round (a - b)"

text \<open>
  Objects and references. A \<^verbatim>\<open>GameSession\<close> object is reached through references: the
  list \<^verbatim>\<open>game_instances\<close> holds some, and every running handler holds one in its local
  variable \<^verbatim>\<open>game_instance\<close>, also after the object has left the list. The store \<open>heap\<close>
  maps a reference to the object; \<open>next_ref\<close> is the next unused reference. The attribute
  \<^verbatim>\<open>board\<close> of a session is \<open>game_board\<close> here, and a participant (a
  \<^verbatim>\<open>DefaultWebSocketSession\<close>, one per handler) is identified with its connection.
  \<^verbatim>\<open>time.time()\<close> is a parameter of the operations that read the clock.
\<close>

type_synonym ref = nat
type_synonym conn = nat

record GameSession =
  name :: string
  players :: "conn list"
  game_board :: TicTacToe
  time :: real

record ServerResponse =
  op :: int
  data :: string

text \<open>
  An inbound move after \<^verbatim>\<open>Position.parse_raw\<close>: the fields \<^verbatim>\<open>x\<close>, \<^verbatim>\<open>y\<close> and \<^verbatim>\<open>type\<close>. The
  type is any member of the enumeration, "-" included.
\<close>

record Position =
  pos_x :: int
  pos_y :: int
  pos_type :: TicPieceState

text \<open>
  One invocation of the handler \<^verbatim>\<open>game\<close>: its local variables \<^verbatim>\<open>game_instance\<close> and
  \<^verbatim>\<open>ai\<close>, and where its control is: in the \<^verbatim>\<open>while True\<close> loop awaiting a message
  (\<open>Active\<close>), returned (\<open>Terminated\<close>), or left by an exception that the handler does not
  catch (\<open>Failed\<close>). \<open>outbox\<close> records every \<^verbatim>\<open>send\<close>, in order, with its recipient; the
  transport itself is outside the model and a send always goes through.
\<close>

datatype loop_state = Active | Terminated | Failed error

record connection =
  game_instance :: ref
  ai :: bool
  loop :: loop_state

record server =
  heap :: "ref \<Rightarrow> GameSession"
  next_ref :: ref
  game_instances :: "ref list"
  conn_info :: "conn \<Rightarrow> connection"
  next_conn :: conn
  outbox :: "(conn \<times> ServerResponse) list"

definition init_server :: server where
  "init_server =
     \<lparr> heap = (\<lambda>_. \<lparr> name = [], players = [], game_board = \<lparr> size_n = 0, board = [] \<rparr>,
                       time = 0 \<rparr>),
       next_ref = 0,
       game_instances = [],
       conn_info = (\<lambda>_. \<lparr> game_instance = 0, ai = False, loop = Terminated \<rparr>),
       next_conn = 0,
       outbox = [] \<rparr>"

text \<open>\<^verbatim>\<open>list.remove(v)\<close> deletes the first occurrence and raises ValueError when there is none.\<close>

definition list_remove :: "'a \<Rightarrow> 'a list \<Rightarrow> error + 'a list" where
  "list_remove v xs = (if v \<in> set xs then Inr (remove1 v xs) else Inl ValueError)"

text \<open>
  \<^verbatim>\<open>create_game\<close>: \<^verbatim>\<open>if not name\<close> holds for \<^verbatim>\<open>None\<close> and for the empty string, and then the
  name is the generated \<^verbatim>\<open>uuid4\<close> string, a parameter here. The \<^verbatim>\<open>TicTacToe\<close> constructor runs
  before anything is appended, so its exception leaves the state as it was.
\<close>

definition create_game ::
  "server \<Rightarrow> int \<Rightarrow> string option \<Rightarrow> string \<Rightarrow> real \<Rightarrow> (error + string) \<times> server" where
  "create_game s sz nm uuid4 now =
     (let nm' = (case nm of None \<Rightarrow> uuid4 | Some n \<Rightarrow> if n = [] then uuid4 else n) in
      case TicTacToe_init sz of
        Inl e \<Rightarrow> (Inl e, s)
      | Inr b \<Rightarrow>
          (Inr nm',
           s\<lparr> heap := (heap s)(next_ref s :=
                  \<lparr> name = nm', players = [], game_board = b, time = now \<rparr>),
              next_ref := Suc (next_ref s),
              game_instances := game_instances s @ [next_ref s] \<rparr>))"

text \<open>
  The handler \<^verbatim>\<open>game\<close>, event by event. Joining: the first session of that name in the
  list, or the connection is closed at once; otherwise the participant is appended and the
  initial message sent. The body of one handler between two \<^verbatim>\<open>await\<close> points of reception
  is taken as one step.
\<close>

definition find_game :: "server \<Rightarrow> string \<Rightarrow> ref option" where
  "find_game s nm = find (\<lambda>g. name (heap s g) = nm) (game_instances s)"

definition send_all :: "server \<Rightarrow> conn list \<Rightarrow> ServerResponse \<Rightarrow> server" where
  "send_all s ps response = s\<lparr> outbox := outbox s @ map (\<lambda>player. (player, response)) ps \<rparr>"

definition game_join :: "server \<Rightarrow> string \<Rightarrow> bool \<Rightarrow> conn option \<times> server" where
  "game_join s nm ai_flag =
     (case find_game s nm of
        None \<Rightarrow> (None, s)
      | Some g \<Rightarrow>
          (let c = next_conn s;
               s1 = s\<lparr> heap := (heap s)(g := (heap s g)\<lparr> players := players (heap s g) @ [c] \<rparr>),
                       conn_info := (conn_info s)(c :=
                          \<lparr> game_instance = g, ai = ai_flag, loop = Active \<rparr>),
                       next_conn := Suc c \<rparr>
           in (Some c,
               send_all s1 [c] \<lparr> op = 0, data = get_board (game_board (heap s1 g)) \<rparr>)))"

text \<open>
  One turn of the loop, on a received move: the human placement (its result is discarded),
  the automated opponent's random placement when \<^verbatim>\<open>ai\<close> is set, the broadcast of the board
  with the two textual replacements, and then either the end of the game (final message,
  removal from the list, \<^verbatim>\<open>break\<close>) or the sweep of old sessions, whose test
  \<^verbatim>\<open>now - game.time < 600\<close> subtracts two floats.
\<close>

definition ai_piece :: "TicPieceState \<Rightarrow> TicPieceState" where
  "ai_piece player_type = (if player_type = Check then Circle else Check)"

definition move_board :: "TicTacToe \<Rightarrow> Position \<Rightarrow> bool \<Rightarrow> nat \<Rightarrow> TicTacToe" where
  "move_board b position ai_flag r =
     (let b1 = snd (place_piece b (pos_x position) (pos_y position) (pos_type position)) in
      if ai_flag then snd (place_random_piece b1 (ai_piece (pos_type position)) r) else b1)"

definition board_data :: "TicTacToe \<Rightarrow> string" where
  "board_data b = replace_str ''Check'' ''X'' (replace_str ''Circle'' ''O'' (get_board b))"

definition set_loop :: "server \<Rightarrow> conn \<Rightarrow> loop_state \<Rightarrow> server" where
  "set_loop s c l = s\<lparr> conn_info := (conn_info s)(c := (conn_info s c)\<lparr> loop := l \<rparr>) \<rparr>"

definition game_receive :: "server \<Rightarrow> conn \<Rightarrow> Position \<Rightarrow> nat \<Rightarrow> real \<Rightarrow> server" where
  "game_receive s c position r now =
     (if loop (conn_info s c) \<noteq> Active then s
      else
        let g = game_instance (conn_info s c);
            b = move_board (game_board (heap s g)) position (ai (conn_info s c)) r;
            s1 = s\<lparr> heap := (heap s)(g := (heap s g)\<lparr> game_board := b \<rparr>) \<rparr>;
            s2 = send_all s1 (players (heap s1 g)) \<lparr> op = 0, data = board_data b \<rparr>;
            current_state = check_game_status b
        in if current_state \<noteq> Playing then
             (let s3 = send_all s2 (players (heap s2 g))
                         \<lparr> op = 1, data = state_value current_state \<rparr>
              in case list_remove g (game_instances s3) of
                   Inl e \<Rightarrow> set_loop s3 c (Failed e)
                 | Inr gs \<Rightarrow> set_loop (s3\<lparr> game_instances := gs \<rparr>) c Terminated)
           else s2\<lparr> game_instances :=
                      filter (\<lambda>game. float_sub now (time (heap s2 game)) < 600)
                             (game_instances s2) \<rparr>)"

text \<open>
  The \<^verbatim>\<open>except WebSocketDisconnect\<close> clause, for a disconnect while the loop awaits a
  message.
\<close>

definition game_disconnect :: "server \<Rightarrow> conn \<Rightarrow> server" where
  "game_disconnect s c =
     (if loop (conn_info s c) \<noteq> Active then s
      else
        let g = game_instance (conn_info s c) in
        case list_remove c (players (heap s g)) of
          Inl e \<Rightarrow> set_loop s c (Failed e)
        | Inr ps \<Rightarrow>
            (let s1 = s\<lparr> heap := (heap s)(g := (heap s g)\<lparr> players := ps \<rparr>) \<rparr> in
             if ps = [] then
               (case list_remove g (game_instances s1) of
                  Inl e \<Rightarrow> set_loop s1 c (Failed e)
                | Inr gs \<Rightarrow> set_loop (s1\<lparr> game_instances := gs \<rparr>) c Terminated)
             else set_loop s1 c Terminated))"

text \<open>Shorthands for the session and the board a connection's turn works on.\<close>

abbreviation session_of :: "server \<Rightarrow> conn \<Rightarrow> ref" where
  "session_of s c \<equiv> game_instance (conn_info s c)"

abbreviation board_before :: "server \<Rightarrow> conn \<Rightarrow> TicTacToe" where
  "board_before s c \<equiv> game_board (heap s (session_of s c))"

abbreviation board_after :: "server \<Rightarrow> conn \<Rightarrow> Position \<Rightarrow> nat \<Rightarrow> TicTacToe" where
  "board_after s c position r \<equiv> move_board (board_before s c) position (ai (conn_info s c)) r"

abbreviation state_broadcast :: "server \<Rightarrow> conn \<Rightarrow> Position \<Rightarrow> nat \<Rightarrow> (conn \<times> ServerResponse) list" where
  "state_broadcast s c position r \<equiv>
     map (\<lambda>player. (player, \<lparr> op = 0, data = board_data (board_after s c position r) \<rparr>))
         (players (heap s (session_of s c)))"

abbreviation end_broadcast :: "server \<Rightarrow> conn \<Rightarrow> Position \<Rightarrow> nat \<Rightarrow> (conn \<times> ServerResponse) list" where
  "end_broadcast s c position r \<equiv>
     map (\<lambda>player. (player, \<lparr> op = 1,
                 data = state_value (check_game_status (board_after s c position r)) \<rparr>))
         (players (heap s (session_of s c)))"

text \<open>
  The display tokens as the specification lists them: Circle as "O", Check as "X", Empty as
  "-". \<open>circle_replaced\<close> is the cell token between the two replacements.
\<close>

fun display_value :: "TicPieceState \<Rightarrow> string" where
  "display_value Check = ''X''"
| "display_value Circle = ''O''"
| "display_value Empty = ''-''"

fun circle_replaced :: "TicPieceState \<Rightarrow> string" where
  "circle_replaced Check = ''Check''"
| "circle_replaced Circle = ''O''"
| "circle_replaced Empty = ''-''"

text \<open>
  Runs of the service: the events that reach it, and the state after a list of them. The
  registry is in order when it holds no reference twice and only allocated ones.
\<close>

datatype event =
    Create int "string option" string real
  | Join string bool
  | Receive conn Position nat real
  | Disconnect conn

fun step :: "server \<Rightarrow> event \<Rightarrow> server" where
  "step s (Create sz nm uuid4 now) = snd (create_game s sz nm uuid4 now)"
| "step s (Join nm ai_flag) = snd (game_join s nm ai_flag)"
| "step s (Receive c position r now) = game_receive s c position r now"
| "step s (Disconnect c) = game_disconnect s c"

fun run :: "server \<Rightarrow> event list \<Rightarrow> server" where
  "run s [] = s"
| "run s (e # es) = run (step s e) es"

definition registry_ok :: "server \<Rightarrow> bool" where
  "registry_ok s \<longleftrightarrow> distinct (game_instances s) \<and> list_all (\<lambda>g. g < next_ref s) (game_instances s)"

text \<open>Event lists and moves for concrete runs.\<close>

definition two_players :: "event list" where
  "two_players =
     [Create 3 (Some ''g1'') ''generated'' 0, Join ''g1'' False, Join ''g1'' False,
      Receive 0 \<lparr> pos_x = 0, pos_y = 0, pos_type = Check \<rparr> 0 10,
      Receive 1 \<lparr> pos_x = 1, pos_y = 0, pos_type = Circle \<rparr> 0 20,
      Receive 0 \<lparr> pos_x = 0, pos_y = 1, pos_type = Check \<rparr> 0 30,
      Receive 1 \<lparr> pos_x = 1, pos_y = 1, pos_type = Circle \<rparr> 0 40]"

definition winning_move :: Position where
  "winning_move = \<lparr> pos_x = 0, pos_y = 2, pos_type = Check \<rparr>"

definition one_player :: "event list" where
  "one_player = [Create 3 (Some ''g1'') ''generated'' 0, Join ''g1'' False]"

definition first_move :: Position where
  "first_move = \<lparr> pos_x = 0, pos_y = 0, pos_type = Check \<rparr>"

definition outside_move :: Position where
  "outside_move = \<lparr> pos_x = - 1, pos_y = 0, pos_type = Check \<rparr>"

definition ai_player :: "event list" where
  "ai_player =
     [Create 3 (Some ''g1'') ''generated'' 0, Join ''g1'' True,
      Receive 0 outside_move 0 10, Receive 0 outside_move 0 20]"

definition same_name :: "event list" where
  "same_name =
     [Create 3 (Some ''g1'') ''generated'' 0, Create 3 (Some ''g1'') ''generated'' 500,
      Join ''g1'' False]"


section \<open>Properties of the board engine\<close>

subsection \<open>The class invariant\<close>



lemma wf_fresh3: "wf_board fresh3"
  by (simp add: wf_board_def fresh3_def)

lemma wf_row_length:
  "wf_board t \<Longrightarrow> i < nat (size_n t) \<Longrightarrow> length (board t ! i) = nat (size_n t)"
  by (simp add: wf_board_def list_all_length)

lemma wf_update:
  assumes "wf_board t"
  shows "wf_board (t\<lparr> board := (board t)[i := (board t ! i)[j := p]] \<rparr>)"
  using assms
  apply (simp add: wf_board_def list_all_length)
  by (metis length_list_update nth_list_update_eq nth_list_update_neq)

lemma nth_update2:
  assumes "i < length b" "j < length (b ! i)"
  shows "(b[i := (b ! i)[j := p]]) ! i' ! j' = (if i' = i \<and> j' = j then p else b ! i' ! j')"
  using assms by (cases "i' = i") (auto simp: nth_list_update)

lemma wf_cells_update:
  assumes "wf_board t" "x < nat (size_n t)" "y < nat (size_n t)"
  shows "(board t)[x := (board t ! x)[y := p]] ! i ! j =
           (if i = x \<and> j = y then p else board t ! i ! j)"
proof -
  have "length (board t) = nat (size_n t)" using assms(1) by (simp add: wf_board_def)
  moreover have "length (board t ! x) = nat (size_n t)" using wf_row_length[OF assms(1,2)] .
  ultimately show ?thesis using nth_update2[of x "board t" y] assms(2,3) by simp
qed

lemma empty_cells_iff:
  "(x, y) \<in> set (empty_cells t) \<longleftrightarrow>
     x < nat (size_n t) \<and> y < nat (size_n t) \<and> board t ! x ! y = Empty"
  by (auto simp: empty_cells_def)

subsection \<open>Placement\<close>

text \<open>
  Claim C1, as amended. On a board satisfying the class invariant,
  \<^verbatim>\<open>place_piece(x, y, mark)\<close> returns True exactly when \<open>0 \<le> x < size\<close>, \<open>0 \<le> y < size\<close> and
  the target cell is Empty. When it returns True the grid afterwards is the old grid with
  the one cell \<open>(x, y)\<close> holding the mark, and the size is unchanged; when it returns False
  the object is unchanged. A second call on the same cell returns False and changes nothing
  provided the mark placed was Check or Circle. The mark may also be Empty (the value "-"
  of the enumeration): then a successful call writes Empty over Empty, the object is
  unchanged, and the call can be repeated with success.
\<close>

theorem place_piece_spec:
  assumes "wf_board t"
  shows "(fst (place_piece t x y m) \<longleftrightarrow>
            0 \<le> x \<and> x < size_n t \<and> 0 \<le> y \<and> y < size_n t \<and> board t ! nat x ! nat y = Empty) \<and>
         (fst (place_piece t x y m) \<longrightarrow>
            size_n (snd (place_piece t x y m)) = size_n t \<and>
            wf_board (snd (place_piece t x y m)) \<and>
            (\<forall>i j. board (snd (place_piece t x y m)) ! i ! j =
                   (if i = nat x \<and> j = nat y then m else board t ! i ! j))) \<and>
         (\<not> fst (place_piece t x y m) \<longrightarrow> snd (place_piece t x y m) = t) \<and>
         (m = Empty \<longrightarrow> snd (place_piece t x y m) = t) \<and>
         (fst (place_piece t x y m) \<and> m \<noteq> Empty \<longrightarrow>
            place_piece (snd (place_piece t x y m)) x y m' = (False, snd (place_piece t x y m)))"
proof (cases "is_coordinate_valid t x y")
  case False
  then show ?thesis by (simp add: place_piece_def is_coordinate_valid_def)
next
  case True
  then have x: "nat x < nat (size_n t)" and y: "nat y < nat (size_n t)"
    and e: "board t ! nat x ! nat y = Empty"
    by (auto simp: is_coordinate_valid_def)
  have cells: "\<And>i j. (board t)[nat x := (board t ! nat x)[nat y := m]] ! i ! j =
                (if i = nat x \<and> j = nat y then m else board t ! i ! j)"
    using wf_cells_update[OF assms x y] by simp
  have same: "m = Empty \<Longrightarrow> (board t)[nat x := (board t ! nat x)[nat y := m]] = board t"
    using e by (metis list_update_id)
  show ?thesis
    using True wf_update[OF assms, of "nat x" "nat y" m] cells same
    by (auto simp: place_piece_def is_coordinate_valid_def)
qed

theorem place_piece_spec_witness:
  "wf_board fresh3 \<and> fst (place_piece fresh3 1 2 Check) \<and>
   board (snd (place_piece fresh3 1 2 Check)) ! 1 ! 2 = Check \<and>
   board (snd (place_piece fresh3 1 2 Check)) ! 0 ! 0 = Empty \<and>
   place_piece (snd (place_piece fresh3 1 2 Check)) 1 2 Circle =
     (False, snd (place_piece fresh3 1 2 Check)) \<and>
   \<not> fst (place_piece fresh3 3 0 Check) \<and> snd (place_piece fresh3 3 0 Check) = fresh3"
proof -
  have e: "board fresh3 ! nat 1 ! nat 2 = Empty" by (simp add: fresh3_def)
  have s: "size_n fresh3 = 3" by (simp add: fresh3_def)
  from place_piece_spec[OF wf_fresh3, of 1 2 Check Circle] e s
  have a: "fst (place_piece fresh3 1 2 Check)"
    and b: "\<forall>i j. board (snd (place_piece fresh3 1 2 Check)) ! i ! j =
                  (if i = nat 1 \<and> j = nat 2 then Check else board fresh3 ! i ! j)"
    and c: "place_piece (snd (place_piece fresh3 1 2 Check)) 1 2 Circle =
              (False, snd (place_piece fresh3 1 2 Check))"
    by simp_all
  from place_piece_spec[OF wf_fresh3, of 3 0 Check Circle] s
  have d: "\<not> fst (place_piece fresh3 3 0 Check)"
    and f: "snd (place_piece fresh3 3 0 Check) = fresh3"
    by simp_all
  from b have "board (snd (place_piece fresh3 1 2 Check)) ! 1 ! 2 = Check"
    and "board (snd (place_piece fresh3 1 2 Check)) ! 0 ! 0 = Empty"
    by (simp_all add: fresh3_def)
  with a c d f wf_fresh3 show ?thesis by simp
qed

text \<open>
  Claim C1 as stated fails for the mark Empty. On the fresh board of size 3,
  \<^verbatim>\<open>place_piece(0, 0, Empty)\<close> returns True, leaves the grid as it was (no cell is
  changed), and the same call made again returns True again instead of failing.
\<close>

theorem place_piece_replay_counterexample:
  "fst (place_piece fresh3 0 0 Empty) \<and>
   snd (place_piece fresh3 0 0 Empty) = fresh3 \<and>
   fst (place_piece (snd (place_piece fresh3 0 0 Empty)) 0 0 Empty)"
  by (simp add: fresh3_def place_piece_def is_coordinate_valid_def)

subsection \<open>Marks are permanent\<close>

lemma place_random_piece_cases:
  assumes "wf_board t"
  shows "snd (place_random_piece t piece r) = t \<or>
         (\<exists>x y. x < nat (size_n t) \<and> y < nat (size_n t) \<and> board t ! x ! y = Empty \<and>
                snd (place_random_piece t piece r) =
                  t\<lparr> board := (board t)[x := (board t ! x)[y := piece]] \<rparr>)"
proof (cases "empty_cells t = []")
  case True
  then show ?thesis by (simp add: place_random_piece_def)
next
  case False
  let ?c = "empty_cells t ! (r mod length (empty_cells t))"
  have "?c \<in> set (empty_cells t)" using False by simp
  moreover obtain x y where c: "?c = (x, y)" by (cases ?c)
  ultimately have "(x, y) \<in> set (empty_cells t)" by simp
  then have "x < nat (size_n t) \<and> y < nat (size_n t) \<and> board t ! x ! y = Empty"
    by (simp add: empty_cells_iff)
  with False c show ?thesis by (auto simp: place_random_piece_def Let_def)
qed

lemma place_piece_cases:
  "snd (place_piece t x y piece) = t \<or>
   (nat x < nat (size_n t) \<and> nat y < nat (size_n t) \<and> board t ! nat x ! nat y = Empty \<and>
    snd (place_piece t x y piece) =
      t\<lparr> board := (board t)[nat x := (board t ! nat x)[nat y := piece]] \<rparr>)"
  by (auto simp: place_piece_def is_coordinate_valid_def)

lemma apply_op_cases:
  assumes "wf_board t"
  shows "apply_op t bop = t \<or>
         (\<exists>x y p. x < nat (size_n t) \<and> y < nat (size_n t) \<and> board t ! x ! y = Empty \<and>
                apply_op t bop = t\<lparr> board := (board t)[x := (board t ! x)[y := p]] \<rparr>)"
proof (cases bop)
  case (Place x y p)
  show ?thesis using place_piece_cases[of t x y p] unfolding Place apply_op.simps by blast
next
  case (PlaceRandom p r)
  show ?thesis using place_random_piece_cases[OF assms, of p r]
    unfolding PlaceRandom apply_op.simps by blast
qed

lemma apply_op_keeps:
  assumes "wf_board t"
  shows "wf_board (apply_op t bop) \<and> size_n (apply_op t bop) = size_n t \<and>
         (\<forall>i j. board t ! i ! j \<noteq> Empty \<longrightarrow> board (apply_op t bop) ! i ! j = board t ! i ! j)"
proof -
  from apply_op_cases[OF assms, of bop] show ?thesis
  proof
    assume "apply_op t bop = t"
    then show ?thesis using assms by simp
  next
    assume "\<exists>x y p. x < nat (size_n t) \<and> y < nat (size_n t) \<and> board t ! x ! y = Empty \<and>
                apply_op t bop = t\<lparr> board := (board t)[x := (board t ! x)[y := p]] \<rparr>"
    then obtain x y p where x: "x < nat (size_n t)" and y: "y < nat (size_n t)"
      and e: "board t ! x ! y = Empty"
      and eq: "apply_op t bop = t\<lparr> board := (board t)[x := (board t ! x)[y := p]] \<rparr>"
      by blast
    have "\<And>i j. (board t)[x := (board t ! x)[y := p]] ! i ! j =
                  (if i = x \<and> j = y then p else board t ! i ! j)"
      using wf_cells_update[OF assms x y] by simp
    then show ?thesis using eq e wf_update[OF assms, of x y p] by auto
  qed
qed

text \<open>
  Claim C10. Starting from any board satisfying the class invariant, after any sequence of
  \<^verbatim>\<open>place_piece\<close> and \<^verbatim>\<open>place_random_piece\<close> calls (any coordinates, any pieces, any random
  draws) every cell that held Check or Circle still holds the same mark: the calls write
  only to cells that are Empty. Hence the set of occupied cells can only grow, and the
  side length and the shape of the grid stay as they were.
\<close>

theorem marks_permanent:
  assumes "wf_board t"
  shows "wf_board (apply_ops t ops) \<and> size_n (apply_ops t ops) = size_n t \<and>
         (\<forall>i j. board t ! i ! j \<noteq> Empty \<longrightarrow> board (apply_ops t ops) ! i ! j = board t ! i ! j) \<and>
         occupied t \<subseteq> occupied (apply_ops t ops)"
proof -
  have main: "wf_board (apply_ops t ops) \<and> size_n (apply_ops t ops) = size_n t \<and>
         (\<forall>i j. board t ! i ! j \<noteq> Empty \<longrightarrow> board (apply_ops t ops) ! i ! j = board t ! i ! j)"
    using assms
  proof (induction ops arbitrary: t)
    case Nil
    then show ?case by simp
  next
    case (Cons bop ops)
    from apply_op_keeps[OF Cons.prems, of bop]
    have w: "wf_board (apply_op t bop)" and s: "size_n (apply_op t bop) = size_n t"
      and k: "\<And>i j. board t ! i ! j \<noteq> Empty \<Longrightarrow> board (apply_op t bop) ! i ! j = board t ! i ! j"
      by auto
    from Cons.IH[OF w] s k show ?case by simp
  qed
  then show ?thesis by (auto simp: occupied_def)
qed

theorem marks_permanent_witness:
  "wf_board (snd (place_piece fresh3 0 0 Check)) \<and>
   board (snd (place_piece fresh3 0 0 Check)) ! 0 ! 0 = Check \<and>
   board (apply_ops (snd (place_piece fresh3 0 0 Check))
            [Place 0 0 Circle, PlaceRandom Circle 5, Place 0 0 Empty]) ! 0 ! 0 = Check \<and>
   size_n (apply_ops (snd (place_piece fresh3 0 0 Check))
            [Place 0 0 Circle, PlaceRandom Circle 5, Place 0 0 Empty]) = 3"
proof -
  let ?t = "snd (place_piece fresh3 0 0 Check)"
  have t: "?t = \<lparr> size_n = 3,
             board = [[Check, Empty, Empty], [Empty, Empty, Empty], [Empty, Empty, Empty]] \<rparr>"
    by (simp add: fresh3_def place_piece_def is_coordinate_valid_def)
  have w: "wf_board ?t" unfolding t by (simp add: wf_board_def)
  have c: "board ?t ! 0 ! 0 = Check" unfolding t by simp
  have s: "size_n ?t = 3" unfolding t by simp
  from marks_permanent[OF w, of "[Place 0 0 Circle, PlaceRandom Circle 5, Place 0 0 Empty]"] c s
  show ?thesis using w by simp
qed

subsection \<open>The outcome\<close>

lemma ball_upto: "(\<forall>i \<in> {0..<n::nat}. P i) \<longleftrightarrow> (\<forall>i < n. P i)"
  by auto

lemma bex_upto: "(\<exists>i \<in> {0..<n::nat}. P i) \<longleftrightarrow> (\<exists>i < n. P i)"
  by auto

lemma row_of_iff:
  "row_of t m \<longleftrightarrow> (\<exists>i < nat (size_n t). \<forall>j < nat (size_n t). board t ! i ! j = m)"
  by (simp only: row_of_def ball_upto bex_upto)

lemma col_of_iff:
  "col_of t m \<longleftrightarrow> (\<exists>j < nat (size_n t). \<forall>i < nat (size_n t). board t ! i ! j = m)"
  by (simp only: col_of_def ball_upto bex_upto)

lemma has_line_alt:
  "has_line t m \<longleftrightarrow>
     row_of t m \<or> col_of t m \<or> (\<forall>i < nat (size_n t). board t ! i ! i = m) \<or>
     (\<forall>i < nat (size_n t). board t ! i ! (nat (size_n t) - i - 1) = m)"
  by (simp only: has_line_def ball_upto)

lemma status_rows_None:
  "status_rows b = None \<longleftrightarrow>
     (\<forall>row \<in> set b. \<not> list_all (\<lambda>c. c = Circle) row \<and> \<not> list_all (\<lambda>c. c = Check) row)"
  by (induction b) auto

lemma status_rows_Some:
  "status_rows b = Some g \<Longrightarrow>
     (g = Circle_state \<and> (\<exists>row \<in> set b. list_all (\<lambda>c. c = Circle) row)) \<or>
     (g = Check_state \<and> (\<exists>row \<in> set b. list_all (\<lambda>c. c = Check) row))"
  by (induction b) (auto split: if_splits)

lemma status_cols_None:
  "status_cols b cols = None \<longleftrightarrow>
     (\<forall>col \<in> set cols. \<not> list_all (\<lambda>row. row ! col = Circle) b \<and>
                        \<not> list_all (\<lambda>row. row ! col = Check) b)"
  by (induction cols) auto

lemma status_cols_Some:
  "status_cols b cols = Some g \<Longrightarrow>
     (g = Circle_state \<and> (\<exists>col \<in> set cols. list_all (\<lambda>row. row ! col = Circle) b)) \<or>
     (g = Check_state \<and> (\<exists>col \<in> set cols. list_all (\<lambda>row. row ! col = Check) b))"
  by (induction cols) (auto split: if_splits)

lemma check_win_lines_iff:
  "check_win_lines b n m is \<longleftrightarrow>
     (\<exists>i \<in> set is. (\<forall>j < n. b ! i ! j = m) \<or> (\<forall>j < n. b ! j ! i = m))"
  by (induction "is") (auto simp: list_all_iff)

lemma wf_row_all:
  assumes "wf_board t"
  shows "(\<exists>row \<in> set (board t). list_all (\<lambda>c. c = m) row) \<longleftrightarrow> row_of t m"
proof -
  have len: "length (board t) = nat (size_n t)" using assms by (simp add: wf_board_def)
  have rl: "\<And>i. i < nat (size_n t) \<Longrightarrow> length (board t ! i) = nat (size_n t)"
    using assms by (simp add: wf_board_def list_all_length)
  have "(\<exists>row \<in> set (board t). list_all (\<lambda>c. c = m) row) \<longleftrightarrow>
        (\<exists>i < nat (size_n t). list_all (\<lambda>c. c = m) (board t ! i))"
    using len by (metis in_set_conv_nth)
  also have "\<dots> \<longleftrightarrow> row_of t m"
    unfolding row_of_iff using rl by (auto simp: list_all_length)
  finally show ?thesis .
qed

lemma wf_col_all:
  assumes "wf_board t"
  shows "(\<exists>col \<in> set [0..<nat (size_n t)]. list_all (\<lambda>row. row ! col = m) (board t))
           \<longleftrightarrow> col_of t m"
proof -
  have len: "length (board t) = nat (size_n t)" using assms by (simp add: wf_board_def)
  show ?thesis unfolding col_of_iff using len by (auto simp: list_all_length)
qed

lemma wf_full:
  assumes "wf_board t"
  shows "list_all (\<lambda>cell. cell \<noteq> Empty) (concat (board t)) \<longleftrightarrow> no_empty_cell t"
proof -
  have len: "length (board t) = nat (size_n t)" using assms by (simp add: wf_board_def)
  have rl: "\<And>i. i < nat (size_n t) \<Longrightarrow> length (board t ! i) = nat (size_n t)"
    using assms by (simp add: wf_board_def list_all_length)
  have "list_all (\<lambda>cell. cell \<noteq> Empty) (concat (board t)) \<longleftrightarrow>
        (\<forall>row \<in> set (board t). \<forall>c \<in> set row. c \<noteq> Empty)"
    by (auto simp: list_all_iff)
  also have "\<dots> \<longleftrightarrow> (\<forall>i < nat (size_n t). \<forall>c \<in> set (board t ! i). c \<noteq> Empty)"
    using len by (metis in_set_conv_nth)
  also have "\<dots> \<longleftrightarrow> (\<forall>i < nat (size_n t). \<forall>j < nat (size_n t). board t ! i ! j \<noteq> Empty)"
    using rl by (metis in_set_conv_nth)
  finally show ?thesis by (simp only: no_empty_cell_def ball_upto)
qed

lemma check_win_iff: "check_win t m \<longleftrightarrow> has_line t m"
proof -
  have "check_win_lines (board t) (nat (size_n t)) m [0..<nat (size_n t)] \<longleftrightarrow>
          row_of t m \<or> col_of t m"
    unfolding check_win_lines_iff row_of_iff col_of_iff by auto
  then show ?thesis
    unfolding has_line_alt check_win_def Let_def by (auto simp: list_all_iff)
qed

lemma row_line: "row_of t m \<Longrightarrow> has_line t m"
  by (simp add: has_line_alt)

lemma col_line: "col_of t m \<Longrightarrow> has_line t m"
  by (simp add: has_line_alt)

text \<open>
  Claim C2, as amended. On a board satisfying the class invariant, \<^verbatim>\<open>check_game_status\<close>
  returns a mark's win only if that mark has a winning line (a full row, a full column, the
  diagonal or the anti-diagonal entirely of that mark), and it returns one of the two wins
  whenever either mark has a winning line; so when exactly one mark has a winning line, that
  mark's win is returned, and when both marks have one, one of the two wins is returned. It
  returns Draw exactly when neither mark has a winning line and no cell is Empty, and
  Playing exactly when neither mark has a winning line and some cell is Empty.
\<close>

theorem check_game_status_spec:
  assumes "wf_board t"
  shows "(check_game_status t = Circle_state \<longrightarrow> has_line t Circle) \<and>
         (check_game_status t = Check_state \<longrightarrow> has_line t Check) \<and>
         (has_line t Circle \<or> has_line t Check \<longrightarrow>
            check_game_status t = Circle_state \<or> check_game_status t = Check_state) \<and>
         (check_game_status t = Draw \<longleftrightarrow>
            \<not> has_line t Circle \<and> \<not> has_line t Check \<and> no_empty_cell t) \<and>
         (check_game_status t = Playing \<longleftrightarrow>
            \<not> has_line t Circle \<and> \<not> has_line t Check \<and> \<not> no_empty_cell t)"
proof (cases "status_rows (board t)")
  case (Some g)
  from status_rows_Some[OF Some] wf_row_all[OF assms]
  have "(g = Circle_state \<and> row_of t Circle) \<or> (g = Check_state \<and> row_of t Check)"
    by blast
  moreover have "check_game_status t = g" using Some by (simp add: check_game_status_def)
  ultimately show ?thesis using row_line by auto
next
  case None
  then have nr: "\<not> row_of t Circle" "\<not> row_of t Check"
    using wf_row_all[OF assms] by (auto simp: status_rows_None)
  show ?thesis
  proof (cases "status_cols (board t) [0..<nat (size_n t)]")
    case (Some g)
    from status_cols_Some[OF Some] wf_col_all[OF assms]
    have "(g = Circle_state \<and> col_of t Circle) \<or> (g = Check_state \<and> col_of t Check)"
      by blast
    moreover have "check_game_status t = g" using None Some by (simp add: check_game_status_def)
    ultimately show ?thesis using col_line by auto
  next
    case N2: None
    show ?thesis using None N2 wf_full[OF assms]
      by (simp add: check_game_status_def check_win_iff)
  qed
qed

lemma both_rows_reached:
  "apply_ops fresh3 [Place 1 0 Check, PlaceRandom Circle 0, Place 1 1 Check, PlaceRandom Circle 0,
                     Place 1 2 Check, PlaceRandom Circle 0] = both_rows"
  by (simp add: fresh3_def both_rows_def place_piece_def is_coordinate_valid_def
      place_random_piece_def empty_cells_def upt_rec)

text \<open>
  Claim C2 as stated fails when both marks have a winning line. The board below arises when
  the human completes row 1 with Check and the automated opponent then completes row 0 with
  Circle in the same turn: row 1 consists entirely of Check, yet the outcome is Circle's win,
  because row 0 is scanned first.
\<close>

theorem check_game_status_counterexample:
  "board both_rows ! 1 = [Check, Check, Check] \<and> has_line both_rows Check \<and>
   check_game_status both_rows = Circle_state \<and> check_game_status both_rows \<noteq> Check_state"
  by (simp add: both_rows_def has_line_def row_of_def col_of_def check_game_status_def
      atLeastLessThan_upt upt_rec)

text \<open>The three outcome scenarios of the specification, run on the code.\<close>

lemma scenario_1: "check_game_status (snd (place_piece fresh3 0 0 Check)) = Playing"
  by (simp add: fresh3_def place_piece_def is_coordinate_valid_def check_game_status_def
      check_win_def upt_rec)

lemma scenario_2:
  "check_game_status \<lparr> size_n = 3,
      board = [[Check, Check, Check], [Empty, Empty, Empty], [Empty, Empty, Empty]] \<rparr> = Check_state"
  by (simp add: check_game_status_def)

lemma scenario_3: "check_game_status drawn3 = Draw"
  by (simp add: drawn3_def check_game_status_def check_win_def upt_rec)

theorem check_game_status_spec_witness:
  "wf_board drawn3 \<and> check_game_status drawn3 = Draw \<and>
   \<not> has_line drawn3 Circle \<and> \<not> has_line drawn3 Check \<and> no_empty_cell drawn3"
proof -
  have w: "wf_board drawn3" by (simp add: drawn3_def wf_board_def)
  have d: "check_game_status drawn3 = Draw"
    by (simp add: drawn3_def check_game_status_def check_win_def upt_rec)
  from check_game_status_spec[OF w] d w show ?thesis by simp
qed

subsection \<open>The snapshot round trip\<close>













section \<open>Properties of the session service\<close>

subsection \<open>The subtraction of floats\<close>

lemma rhe_near: "\<bar>of_int (round_half_even m) - m\<bar> \<le> 1 / 2"
  unfolding round_half_even_def by (auto simp: abs_le_iff)

lemma rhe_nonneg: "0 \<le> m \<Longrightarrow> 0 \<le> round_half_even m"
  unfolding round_half_even_def by auto

lemma rhe_less_even:
  assumes "even N"
  shows "round_half_even m < N \<longleftrightarrow> m < of_int N - 1 / 2"
proof (cases "m - of_int \<lfloor>m\<rfloor> = 1 / 2")
  case True
  then have m: "m = of_int \<lfloor>m\<rfloor> + 1 / 2" by simp
  show ?thesis
  proof (cases "even \<lfloor>m\<rfloor>")
    case e: True
    have r: "round_half_even m = \<lfloor>m\<rfloor>" using True e by (simp add: round_half_even_def)
    have "\<lfloor>m\<rfloor> < N \<longleftrightarrow> \<lfloor>m\<rfloor> + 1 < N" using e assms by presburger
    also have "\<dots> \<longleftrightarrow> (of_int \<lfloor>m\<rfloor> :: real) + 1 < of_int N"
      by (metis of_int_1 of_int_add of_int_less_iff)
    also have "\<dots> \<longleftrightarrow> m < of_int N - 1 / 2" using m by linarith
    finally show ?thesis using r by simp
  next
    case o: False
    have r: "round_half_even m = \<lfloor>m\<rfloor> + 1" using True o by (simp add: round_half_even_def)
    have "\<lfloor>m\<rfloor> + 1 < N \<longleftrightarrow> (of_int \<lfloor>m\<rfloor> :: real) + 1 < of_int N"
      by (metis of_int_1 of_int_add of_int_less_iff)
    also have "\<dots> \<longleftrightarrow> m < of_int N - 1 / 2" using m by linarith
    finally show ?thesis using r by simp
  qed
next
  case False
  show ?thesis
  proof (cases "m - of_int \<lfloor>m\<rfloor> < 1 / 2")
    case True
    have r: "round_half_even m = \<lfloor>m\<rfloor>" using True by (simp add: round_half_even_def)
    have "\<lfloor>m\<rfloor> < N \<longleftrightarrow> \<lfloor>m\<rfloor> + 1 \<le> N" by linarith
    also have "\<dots> \<longleftrightarrow> (of_int \<lfloor>m\<rfloor> :: real) + 1 \<le> of_int N"
      by (metis of_int_1 of_int_add of_int_le_iff)
    also have "\<dots> \<longleftrightarrow> m < of_int N - 1 / 2"
    proof
      assume "(of_int \<lfloor>m\<rfloor> :: real) + 1 \<le> of_int N"
      then show "m < of_int N - 1 / 2" using True by linarith
    next
      assume a: "m < of_int N - 1 / 2"
      have "of_int \<lfloor>m\<rfloor> \<le> m" by simp
      then have "(of_int \<lfloor>m\<rfloor> :: real) < of_int N" using a by linarith
      then have "\<lfloor>m\<rfloor> < N" by simp
      then have "\<lfloor>m\<rfloor> + 1 \<le> N" by simp
      then show "(of_int \<lfloor>m\<rfloor> :: real) + 1 \<le> of_int N"
        by (metis of_int_1 of_int_add of_int_le_iff)
    qed
    finally show ?thesis using r by simp
  next
    case F2: False
    then have gt: "1 / 2 < m - of_int \<lfloor>m\<rfloor>" using False by linarith
    have r: "round_half_even m = \<lfloor>m\<rfloor> + 1" using gt by (simp add: round_half_even_def)
    have "\<lfloor>m\<rfloor> + 1 < N \<longleftrightarrow> \<lfloor>m\<rfloor> + 2 \<le> N" by linarith
    also have "\<dots> \<longleftrightarrow> (of_int \<lfloor>m\<rfloor> :: real) + 2 \<le> of_int N"
      by (metis of_int_numeral of_int_add of_int_le_iff)
    also have "\<dots> \<longleftrightarrow> m < of_int N - 1 / 2"
    proof
      assume "(of_int \<lfloor>m\<rfloor> :: real) + 2 \<le> of_int N"
      moreover have "m < of_int \<lfloor>m\<rfloor> + 1" by linarith
      ultimately show "m < of_int N - 1 / 2" by linarith
    next
      assume a: "m < of_int N - 1 / 2"
      have "(of_int \<lfloor>m\<rfloor> :: real) + 1 < of_int N" using a gt by linarith
      then have "\<lfloor>m\<rfloor> + 1 < N" by (metis of_int_1 of_int_add of_int_less_iff)
      then have "\<lfloor>m\<rfloor> + 2 \<le> N" by simp
      then show "(of_int \<lfloor>m\<rfloor> :: real) + 2 \<le> of_int N"
        by (metis of_int_numeral of_int_add of_int_le_iff)
    qed
    finally show ?thesis using r by simp
  qed
qed

lemma quantum_ge1:
  assumes "1 \<le> a"
  shows "0 < quantum a \<and> quantum a * 2 ^ 52 \<le> a"
proof -
  let ?b = "bitlen \<lfloor>a\<rfloor>"
  have F: "0 < \<lfloor>a\<rfloor>" using assms by linarith
  from bitlen_bounds[OF F] have lo: "2 ^ nat (?b - 1) \<le> \<lfloor>a\<rfloor>" by simp
  have b1: "1 \<le> ?b" using F bitlen_eq_zero_iff[of "\<lfloor>a\<rfloor>"] bitlen_nonneg[of "\<lfloor>a\<rfloor>"] by linarith
  have q: "quantum a = 2 ^ nat (?b - 53) / 2 ^ nat (53 - ?b)"
    using assms by (simp add: quantum_def)
  have e: "nat (?b - 53) + 52 = nat (53 - ?b) + nat (?b - 1)" using b1 by linarith
  have "(2::real) ^ nat (?b - 53) * 2 ^ 52 = 2 ^ nat (53 - ?b) * 2 ^ nat (?b - 1)"
    using e by (metis power_add)
  then have "quantum a * 2 ^ 52 = 2 ^ nat (?b - 1)"
    unfolding q by (simp add: field_simps)
  moreover have "(2::real) ^ nat (?b - 1) \<le> of_int \<lfloor>a\<rfloor>"
    using lo by (metis of_int_le_iff of_int_numeral of_int_power)
  moreover have "of_int \<lfloor>a\<rfloor> \<le> a" by simp
  moreover have "0 < quantum a" unfolding q by simp
  ultimately show ?thesis by linarith
qed

lemma quantum_512:
  assumes "512 \<le> a" "a < 1024"
  shows "quantum a = 1 / 2 ^ 43"
proof -
  have lo: "512 \<le> \<lfloor>a\<rfloor>" using assms(1) by linarith
  have hi: "\<lfloor>a\<rfloor> < 1024" using assms(2) by linarith
  have "bitlen \<lfloor>a\<rfloor> \<le> 10" using hi by (simp add: bitlen_le_iff_power)
  moreover have "10 \<le> bitlen \<lfloor>a\<rfloor>" using lo by (simp add: bitlen_ge_iff_power)
  ultimately have "bitlen \<lfloor>a\<rfloor> = 10" by simp
  then show ?thesis using assms(1) by (simp add: quantum_def)
qed

lemma quantum_small:
  assumes "0 \<le> a" "a < 1"
  shows "0 < quantum a \<and> quantum a \<le> 1"
proof -
  let ?s = "a * 2 ^ 1074"
  have "?s < 1 * 2 ^ 1074" using assms(2) by (intro mult_strict_right_mono) simp_all
  then have "of_int \<lfloor>?s\<rfloor> < (2::real) ^ 1074"
    using of_int_floor_le[of ?s] by linarith
  then have "\<lfloor>?s\<rfloor> < 2 ^ 1074"
    by (metis of_int_less_iff of_int_numeral of_int_power)
  then have "bitlen \<lfloor>?s\<rfloor> \<le> 1074"
    using bitlen_le_iff_power[of "\<lfloor>?s\<rfloor>" 1074] by simp
  then have "nat (bitlen \<lfloor>?s\<rfloor> - 53) \<le> 1074" by linarith
  then have "(2::real) ^ nat (bitlen \<lfloor>?s\<rfloor> - 53) \<le> 2 ^ 1074"
    by (intro power_increasing) simp_all
  moreover have q: "quantum a = 2 ^ nat (bitlen \<lfloor>?s\<rfloor> - 53) / 2 ^ 1074"
    using assms(2) by (simp add: quantum_def)
  ultimately show ?thesis by (simp add: q del: power_numeral)
qed

lemma double_round_near:
  assumes "0 < quantum a"
  shows "a - quantum a / 2 \<le> of_int (round_half_even (a / quantum a)) * quantum a \<and>
         of_int (round_half_even (a / quantum a)) * quantum a \<le> a + quantum a / 2"
proof -
  let ?q = "quantum a"
  let ?r = "of_int (round_half_even (a / ?q)) :: real"
  have "\<bar>?r - a / ?q\<bar> \<le> 1 / 2" by (rule rhe_near)
  then have lo: "a / ?q - 1 / 2 \<le> ?r" and hi: "?r \<le> a / ?q + 1 / 2"
    by linarith+
  have "(a / ?q - 1 / 2) * ?q \<le> ?r * ?q"
    using lo assms by (intro mult_right_mono) simp_all
  moreover have "?r * ?q \<le> (a / ?q + 1 / 2) * ?q"
    using hi assms by (intro mult_right_mono) simp_all
  moreover have "(a / ?q - 1 / 2) * ?q = a - ?q / 2" "(a / ?q + 1 / 2) * ?q = a + ?q / 2"
    using assms by (simp_all add: field_simps)
  ultimately show ?thesis by simp
qed

lemma double_round_less_600: "double_round v < 600 \<longleftrightarrow> v < 600 - 1 / 2 ^ 44"
proof -
  let ?q = "quantum \<bar>v\<bar>"
  let ?R = "of_int (round_half_even (\<bar>v\<bar> / ?q)) * ?q"
  have dr: "double_round v = sgn v * ?R" by (simp add: double_round_def)
  consider "v \<le> 0" | "0 < v" "v < 1" | "1 \<le> v" "v < 512" | "512 \<le> v" "v < 1024" | "1024 \<le> v"
    by linarith
  then show ?thesis
  proof cases
    case 1
    have q: "0 < ?q"
    proof (cases "\<bar>v\<bar> < 1")
      case True
      then show ?thesis using quantum_small[of "\<bar>v\<bar>"] by simp
    next
      case False
      then show ?thesis using quantum_ge1[of "\<bar>v\<bar>"] by simp
    qed
    have "0 \<le> round_half_even (\<bar>v\<bar> / ?q)" using q by (intro rhe_nonneg) simp
    then have "0 \<le> ?R" using q by simp
    then have "sgn v * ?R \<le> 0" using 1 by (cases "v = 0") (simp_all add: sgn_if)
    then have "double_round v < 600" using dr by linarith
    moreover have "v < 600 - 1 / 2 ^ 44" using 1 by simp
    ultimately show ?thesis by simp
  next
    case 2
    then have a: "\<bar>v\<bar> = v" by simp
    from quantum_small[of v] 2 have q: "0 < quantum v" "quantum v \<le> 1" by simp_all
    from double_round_near[of v] q
    have "of_int (round_half_even (v / quantum v)) * quantum v \<le> v + quantum v / 2"
      by simp
    then have "double_round v < 600" using dr a 2 q by (simp add: sgn_if)
    moreover have "v < 600 - 1 / 2 ^ 44" using 2 by simp
    ultimately show ?thesis by simp
  next
    case 3
    then have a: "\<bar>v\<bar> = v" by simp
    from quantum_ge1[of v] 3 have q: "0 < quantum v" "quantum v * 2 ^ 52 \<le> v" by simp_all
    then have q1: "quantum v \<le> 1" using 3 by simp
    from double_round_near[of v] q
    have "of_int (round_half_even (v / quantum v)) * quantum v \<le> v + quantum v / 2"
      by simp
    then have "double_round v < 600" using dr a 3 q1 by (simp add: sgn_if)
    moreover have "v < 600 - 1 / 2 ^ 44" using 3 by simp
    ultimately show ?thesis by simp
  next
    case 4
    then have a: "\<bar>v\<bar> = v" by simp
    have q: "quantum v = 1 / 2 ^ 43" using quantum_512[OF 4] .
    have eq: "double_round v = of_int (round_half_even (v * 2 ^ 43)) / 2 ^ 43"
      using dr a q 4 by (simp add: sgn_if)
    have "double_round v < 600 \<longleftrightarrow>
               (of_int (round_half_even (v * 2 ^ 43)) :: real) / 2 ^ 43 < 600"
      by (simp only: eq)
    also have "\<dots> \<longleftrightarrow> (of_int (round_half_even (v * 2 ^ 43)) :: real) < 600 * 2 ^ 43"
      by (simp add: field_simps)
    also have "\<dots> \<longleftrightarrow> round_half_even (v * 2 ^ 43) < 600 * 2 ^ 43"
      by (metis (no_types, opaque_lifting) of_int_less_iff of_int_mult of_int_numeral of_int_power)
    also have "\<dots> \<longleftrightarrow> v * 2 ^ 43 < of_int (600 * 2 ^ 43) - 1 / 2"
      by (rule rhe_less_even) simp
    also have "\<dots> \<longleftrightarrow> v < 600 - 1 / 2 ^ 44"
      by (simp add: field_simps)
    finally show ?thesis .
  next
    case 5
    then have a: "\<bar>v\<bar> = v" by simp
    from quantum_ge1[of v] 5 have q: "0 < quantum v" "quantum v * 2 ^ 52 \<le> v" by simp_all
    from double_round_near[of v] q
    have "v - quantum v / 2 \<le> of_int (round_half_even (v / quantum v)) * quantum v"
      by simp
    moreover have "quantum v * 2 \<le> quantum v * 2 ^ 52" using q(1) by simp
    then have "quantum v / 2 \<le> v / 4" using q(2) by linarith
    ultimately have "600 \<le> of_int (round_half_even (v / quantum v)) * quantum v"
      using 5 by linarith
    then have "\<not> double_round v < 600" using dr a 5 by (simp add: sgn_if)
    moreover have "\<not> v < 600 - 1 / 2 ^ 44" using 5 by simp
    ultimately show ?thesis by simp
  qed
qed

lemma float_sub_less_600: "float_sub a b < 600 \<longleftrightarrow> a - b < 600 - 1 / 2 ^ 44"
  by (simp only: float_sub_def double_round_less_600)

subsection \<open>One turn of the loop, unfolded\<close>

lemma list_remove_absent: "v \<notin> set xs \<Longrightarrow> list_remove v xs = Inl ValueError"
  by (simp add: list_remove_def)

lemma list_remove_present: "v \<in> set xs \<Longrightarrow> list_remove v xs = Inr (remove1 v xs)"
  by (simp add: list_remove_def)

lemma state_value_terminal:
  "st \<noteq> Playing \<Longrightarrow> state_value st = ''Circle'' \<or> state_value st = ''Check'' \<or> state_value st = ''Draw''"
  by (cases st) simp_all

lemma game_receive_playing:
  assumes "loop (conn_info s c) = Active"
    and "check_game_status (move_board (game_board (heap s (game_instance (conn_info s c))))
            position (ai (conn_info s c)) r) = Playing"
  shows "game_receive s c position r now =
     s\<lparr> heap := (heap s)(game_instance (conn_info s c) :=
            (heap s (game_instance (conn_info s c)))
              \<lparr> game_board := move_board (game_board (heap s (game_instance (conn_info s c))))
                  position (ai (conn_info s c)) r \<rparr>),
        outbox := outbox s @
          map (\<lambda>player. (player, \<lparr> op = 0, data = board_data
                 (move_board (game_board (heap s (game_instance (conn_info s c))))
                    position (ai (conn_info s c)) r) \<rparr>))
              (players (heap s (game_instance (conn_info s c)))),
        game_instances :=
          filter (\<lambda>game. float_sub now (time (heap s game)) < 600) (game_instances s) \<rparr>"
proof -
  have t: "\<And>game b. time (((heap s)(game_instance (conn_info s c) :=
            (heap s (game_instance (conn_info s c)))\<lparr> game_board := b \<rparr>)) game) = time (heap s game)"
    by simp
  show ?thesis using assms
    by (simp add: game_receive_def Let_def send_all_def t fun_upd_same del: fun_upd_apply)
qed

lemma game_receive_terminal:
  assumes "loop (conn_info s c) = Active"
    and "check_game_status (move_board (game_board (heap s (game_instance (conn_info s c))))
            position (ai (conn_info s c)) r) \<noteq> Playing"
  shows "game_receive s c position r now =
     (let g = game_instance (conn_info s c);
          b = move_board (game_board (heap s g)) position (ai (conn_info s c)) r;
          s3 = s\<lparr> heap := (heap s)(g := (heap s g)\<lparr> game_board := b \<rparr>),
                  outbox := outbox s @
                    map (\<lambda>player. (player, \<lparr> op = 0, data = board_data b \<rparr>)) (players (heap s g)) @
                    map (\<lambda>player. (player, \<lparr> op = 1, data = state_value (check_game_status b) \<rparr>))
                        (players (heap s g)) \<rparr>
      in if g \<in> set (game_instances s)
         then set_loop (s3\<lparr> game_instances := remove1 g (game_instances s) \<rparr>) c Terminated
         else set_loop s3 c (Failed ValueError))"
  using assms
  by (simp add: game_receive_def Let_def send_all_def list_remove_def)

subsection \<open>The registry along runs\<close>

lemma registry_ok_create: "registry_ok s \<Longrightarrow> registry_ok (snd (create_game s sz nm uuid4 now))"
  by (auto simp: registry_ok_def create_game_def Let_def list_all_iff split: sum.splits)

lemma registry_ok_join: "registry_ok s \<Longrightarrow> registry_ok (snd (game_join s nm a))"
  by (auto simp: registry_ok_def game_join_def Let_def send_all_def split: option.splits)

lemma registry_ok_sub:
  assumes "registry_ok s" "next_ref s' = next_ref s"
    "game_instances s' = game_instances s \<or>
     game_instances s' = remove1 g (game_instances s) \<or>
     game_instances s' = filter P (game_instances s)"
  shows "registry_ok s'"
  using assms by (auto simp: registry_ok_def list_all_iff dest: notin_set_remove1)

lemma game_receive_registry:
  "next_ref (game_receive s c position r now) = next_ref s \<and>
   (game_instances (game_receive s c position r now) = game_instances s \<or>
    game_instances (game_receive s c position r now) =
      remove1 (session_of s c) (game_instances s) \<or>
    game_instances (game_receive s c position r now) =
      filter (\<lambda>game. float_sub now (time (heap s game)) < 600) (game_instances s))"
proof (cases "loop (conn_info s c) = Active")
  case False
  then show ?thesis by (simp add: game_receive_def)
next
  case True
  show ?thesis
  proof (cases "check_game_status (board_after s c position r) = Playing")
    case P: True
    show ?thesis by (simp add: game_receive_playing[OF True P])
  next
    case P: False
    show ?thesis by (simp add: game_receive_terminal[OF True P] Let_def set_loop_def)
  qed
qed

lemma game_disconnect_registry:
  "next_ref (game_disconnect s c) = next_ref s \<and>
   (game_instances (game_disconnect s c) = game_instances s \<or>
    game_instances (game_disconnect s c) = remove1 (session_of s c) (game_instances s))"
  by (auto simp: game_disconnect_def Let_def set_loop_def list_remove_def split: sum.splits)

lemma registry_ok_step: "registry_ok s \<Longrightarrow> registry_ok (step s e)"
proof (cases e)
  case (Create sz nm u now)
  assume "registry_ok s"
  then show ?thesis using Create by (simp add: registry_ok_create)
next
  case (Join nm a)
  assume "registry_ok s"
  then show ?thesis using Join by (simp add: registry_ok_join)
next
  case (Receive c position r now)
  assume ok: "registry_ok s"
  from game_receive_registry[of s c position r now]
  show ?thesis unfolding Receive step.simps
    by (intro registry_ok_sub[OF ok]) auto
next
  case (Disconnect c)
  assume ok: "registry_ok s"
  from game_disconnect_registry[of s c]
  show ?thesis unfolding Disconnect step.simps
    by (intro registry_ok_sub[OF ok, where P = "\<lambda>_. True"]) auto
qed

lemma registry_ok_run: "registry_ok s \<Longrightarrow> registry_ok (run s es)"
  by (induction es arbitrary: s) (simp_all add: registry_ok_step)

lemma reachable_distinct: "distinct (game_instances (run init_server es))"
proof -
  have "registry_ok init_server" by (simp add: registry_ok_def init_server_def)
  then have "registry_ok (run init_server es)" by (rule registry_ok_run)
  then show ?thesis by (simp add: registry_ok_def)
qed

lemma time_step:
  assumes "g < next_ref s"
  shows "time (heap (step s e) g) = time (heap s g) \<and> name (heap (step s e) g) = name (heap s g) \<and>
         next_ref s \<le> next_ref (step s e)"
proof (cases e)
  case (Create sz nm u now)
  then show ?thesis using assms
    by (auto simp: create_game_def Let_def split: sum.splits)
next
  case (Join nm a)
  then show ?thesis
    by (auto simp: game_join_def Let_def send_all_def split: option.splits)
next
  case (Receive c position r now)
  then show ?thesis
    by (auto simp: game_receive_def Let_def send_all_def set_loop_def split: sum.splits)
next
  case (Disconnect c)
  then show ?thesis
    by (auto simp: game_disconnect_def Let_def set_loop_def split: sum.splits)
qed

lemma time_never_refreshed:
  "g < next_ref s \<Longrightarrow> time (heap (run s es) g) = time (heap s g)"
proof (induction es arbitrary: s)
  case Nil
  then show ?case by simp
next
  case (Cons e es)
  from time_step[OF Cons.prems, of e]
  have "time (heap (step s e) g) = time (heap s g)" and "g < next_ref (step s e)"
    using Cons.prems by auto
  with Cons.IH[of "step s e"] show ?case by simp
qed

subsection \<open>Session creation\<close>

text \<open>
  Claim C5. For every size from 3 to 25 \<^verbatim>\<open>create_game\<close> succeeds: it answers with the
  resolved name and appends one new session to the registry, with that name, no
  participants, the creation time, and the fresh board of that size; the session is then
  found under its name. For every size below 3 or above 25 it fails with
  MaxSizeException and the whole state, the registry included, is unchanged.
\<close>

theorem create_game_spec:
  "(3 \<le> sz \<and> sz \<le> 25 \<longrightarrow>
      fst (create_game s sz nm uuid4 now) =
        Inr (case nm of None \<Rightarrow> uuid4 | Some n \<Rightarrow> if n = [] then uuid4 else n) \<and>
      game_instances (snd (create_game s sz nm uuid4 now)) = game_instances s @ [next_ref s] \<and>
      name (heap (snd (create_game s sz nm uuid4 now)) (next_ref s)) =
        (case nm of None \<Rightarrow> uuid4 | Some n \<Rightarrow> if n = [] then uuid4 else n) \<and>
      players (heap (snd (create_game s sz nm uuid4 now)) (next_ref s)) = [] \<and>
      time (heap (snd (create_game s sz nm uuid4 now)) (next_ref s)) = now \<and>
      TicTacToe_init sz = Inr (game_board (heap (snd (create_game s sz nm uuid4 now)) (next_ref s))) \<and>
      find_game (snd (create_game s sz nm uuid4 now))
        (case nm of None \<Rightarrow> uuid4 | Some n \<Rightarrow> if n = [] then uuid4 else n) \<noteq> None) \<and>
   (sz < 3 \<or> 25 < sz \<longrightarrow>
      create_game s sz nm uuid4 now = (Inl MaxSizeException, s))"
  by (auto simp: create_game_def TicTacToe_init_def find_game_def find_None_iff Let_def)

theorem create_game_spec_witness:
  "fst (create_game init_server 3 (Some ''g1'') ''generated'' 0) = Inr ''g1'' \<and>
   game_instances (snd (create_game init_server 3 (Some ''g1'') ''generated'' 0)) = [0] \<and>
   fst (create_game init_server 25 None ''generated'' 0) = Inr ''generated'' \<and>
   create_game init_server 2 (Some ''g1'') ''generated'' 0 = (Inl MaxSizeException, init_server) \<and>
   create_game init_server 26 (Some ''g1'') ''generated'' 0 = (Inl MaxSizeException, init_server)"
proof -
  have n: "next_ref init_server = 0" "game_instances init_server = []"
    by (simp_all add: init_server_def)
  from create_game_spec[of 3 init_server "Some ''g1''" "''generated''" 0] n
  have a: "fst (create_game init_server 3 (Some ''g1'') ''generated'' 0) = Inr ''g1''"
    and b: "game_instances (snd (create_game init_server 3 (Some ''g1'') ''generated'' 0)) = [0]"
    by simp_all
  from create_game_spec[of 25 init_server None "''generated''" 0]
  have c: "fst (create_game init_server 25 None ''generated'' 0) = Inr ''generated''"
    by simp
  from create_game_spec[of 2 init_server "Some ''g1''" "''generated''" 0]
  have d: "create_game init_server 2 (Some ''g1'') ''generated'' 0 = (Inl MaxSizeException, init_server)"
    by simp
  from create_game_spec[of 26 init_server "Some ''g1''" "''generated''" 0]
  have e: "create_game init_server 26 (Some ''g1'') ''generated'' 0 = (Inl MaxSizeException, init_server)"
    by simp
  show ?thesis by (intro conjI a b c d e)
qed

subsection \<open>State updates on the wire\<close>

lemma hom_cells:
  assumes cell: "\<And>p rest. R (json_string (f p) @ rest) = json_string (g p) @ R rest"
    and sep: "\<And>rest. R ('', '' @ rest) = '', '' @ R rest"
  shows "R (join_str '', '' (map (\<lambda>p. json_string (f p)) ps) @ rest) =
         join_str '', '' (map (\<lambda>p. json_string (g p)) ps) @ R rest"
proof (induction ps)
  case Nil
  then show ?case by simp
next
  case (Cons p ps)
  show ?case
  proof (cases ps)
    case Nil
    then show ?thesis using cell by simp
  next
    case (Cons q qs)
    have "R (join_str '', '' (map (\<lambda>p. json_string (f p)) (p # ps)) @ rest) =
          R (json_string (f p) @ ('', '' @ join_str '', '' (map (\<lambda>p. json_string (f p)) ps) @ rest))"
      using Cons by simp
    also have "\<dots> = json_string (g p) @
          R ('', '' @ join_str '', '' (map (\<lambda>p. json_string (f p)) ps) @ rest)"
      by (rule cell)
    also have "\<dots> = json_string (g p) @ '', '' @
          R (join_str '', '' (map (\<lambda>p. json_string (f p)) ps) @ rest)"
      by (simp only: sep)
    also have "\<dots> = json_string (g p) @ '', '' @
          join_str '', '' (map (\<lambda>p. json_string (g p)) ps) @ R rest"
      by (simp only: Cons.IH)
    finally show ?thesis using Cons by simp
  qed
qed

lemma hom_row:
  assumes cell: "\<And>p rest. R (json_string (f p) @ rest) = json_string (g p) @ R rest"
    and sep: "\<And>rest. R ('', '' @ rest) = '', '' @ R rest"
    and lb: "\<And>rest. R (''['' @ rest) = ''['' @ R rest"
    and rb: "\<And>rest. R ('']'' @ rest) = '']'' @ R rest"
  shows "R (json_list (map (\<lambda>p. json_string (f p)) ps) @ rest) =
         json_list (map (\<lambda>p. json_string (g p)) ps) @ R rest"
proof -
  have "R (json_list (map (\<lambda>p. json_string (f p)) ps) @ rest) =
        R (''['' @ (join_str '', '' (map (\<lambda>p. json_string (f p)) ps) @ ('']'' @ rest)))"
    by (simp add: json_list_def)
  also have "\<dots> = ''['' @ R (join_str '', '' (map (\<lambda>p. json_string (f p)) ps) @ ('']'' @ rest))"
    by (rule lb)
  also have "\<dots> = ''['' @ join_str '', '' (map (\<lambda>p. json_string (g p)) ps) @ R ('']'' @ rest)"
    by (simp only: hom_cells[of R f g, OF cell sep])
  also have "\<dots> = ''['' @ join_str '', '' (map (\<lambda>p. json_string (g p)) ps) @ '']'' @ R rest"
    by (simp only: rb)
  finally show ?thesis by (simp add: json_list_def)
qed

lemma hom_rows:
  assumes cell: "\<And>p rest. R (json_string (f p) @ rest) = json_string (g p) @ R rest"
    and sep: "\<And>rest. R ('', '' @ rest) = '', '' @ R rest"
    and lb: "\<And>rest. R (''['' @ rest) = ''['' @ R rest"
    and rb: "\<And>rest. R ('']'' @ rest) = '']'' @ R rest"
  shows "R (join_str '', '' (map (\<lambda>row. json_list (map (\<lambda>p. json_string (f p)) row)) b) @ rest) =
         join_str '', '' (map (\<lambda>row. json_list (map (\<lambda>p. json_string (g p)) row)) b) @ R rest"
proof (induction b)
  case Nil
  then show ?case by simp
next
  case (Cons row b)
  note row = hom_row[of R f g, OF cell sep lb rb]
  show ?case
  proof (cases b)
    case Nil
    then show ?thesis using row by simp
  next
    case (Cons q qs)
    let ?F = "\<lambda>row. json_list (map (\<lambda>p. json_string (f p)) row)"
    let ?G = "\<lambda>row. json_list (map (\<lambda>p. json_string (g p)) row)"
    have "R (join_str '', '' (map ?F (row # b)) @ rest) =
          R (?F row @ ('', '' @ join_str '', '' (map ?F b) @ rest))"
      using Cons by simp
    also have "\<dots> = ?G row @ R ('', '' @ join_str '', '' (map ?F b) @ rest)"
      by (rule row)
    also have "\<dots> = ?G row @ '', '' @ R (join_str '', '' (map ?F b) @ rest)"
      by (simp only: sep)
    also have "\<dots> = ?G row @ '', '' @ join_str '', '' (map ?G b) @ R rest"
      by (simp only: Cons.IH)
    finally show ?thesis using Cons by simp
  qed
qed

lemma hom_grid:
  assumes cell: "\<And>p rest. R (json_string (f p) @ rest) = json_string (g p) @ R rest"
    and sep: "\<And>rest. R ('', '' @ rest) = '', '' @ R rest"
    and lb: "\<And>rest. R (''['' @ rest) = ''['' @ R rest"
    and rb: "\<And>rest. R ('']'' @ rest) = '']'' @ R rest"
    and nil: "R [] = []"
  shows "R (json_dumps (map (\<lambda>row. map f row) b)) = json_dumps (map (\<lambda>row. map g row) b)"
proof -
  let ?F = "\<lambda>row. json_list (map (\<lambda>p. json_string (f p)) row)"
  let ?G = "\<lambda>row. json_list (map (\<lambda>p. json_string (g p)) row)"
  have "R (json_dumps (map (\<lambda>row. map f row) b)) =
        R (''['' @ (join_str '', '' (map ?F b) @ ('']'' @ [])))"
    by (simp add: json_dumps_def json_list_def o_def)
  also have "\<dots> = ''['' @ R (join_str '', '' (map ?F b) @ ('']'' @ []))"
    by (rule lb)
  also have "\<dots> = ''['' @ join_str '', '' (map ?G b) @ R ('']'' @ [])"
    by (simp only: hom_rows[of R f g, OF cell sep lb rb])
  also have "\<dots> = ''['' @ join_str '', '' (map ?G b) @ '']''"
    using rb[of "[]"] nil by simp
  finally show ?thesis by (simp add: json_dumps_def json_list_def o_def)
qed

lemma replace_circle_cell:
  "replace_str ''Circle'' ''O'' (json_string (piece_value p) @ rest) =
   json_string (circle_replaced p) @ replace_str ''Circle'' ''O'' rest"
  by (cases p) (simp_all add: json_string_def dquote_def)

lemma replace_check_cell:
  "replace_str ''Check'' ''X'' (json_string (circle_replaced p) @ rest) =
   json_string (display_value p) @ replace_str ''Check'' ''X'' rest"
  by (cases p) (simp_all add: json_string_def dquote_def)

lemma board_data_display:
  "board_data b = json_dumps (map (\<lambda>row. map display_value row) (board b))"
proof -
  have "replace_str ''Circle'' ''O'' (get_board b) =
        json_dumps (map (\<lambda>row. map circle_replaced row) (board b))"
    unfolding get_board_def
    by (rule hom_grid) (simp_all add: replace_circle_cell)
  moreover have "replace_str ''Check'' ''X'' (json_dumps (map (\<lambda>row. map circle_replaced row) (board b))) =
        json_dumps (map (\<lambda>row. map display_value row) (board b))"
    by (rule hom_grid) (simp_all add: replace_check_cell)
  ultimately show ?thesis by (simp add: board_data_def)
qed

text \<open>
  Claim C3 holds for the broadcast after a move (lemma \<open>board_data_display\<close>: the data
  is the JSON text of the grid of the tokens "X", "O" and "-"), but not for the initial
  message to a participant who joins: the handler sends \<^verbatim>\<open>get_board()\<close> as it is, without
  the two replacements. In the run below the first participant plays Check at (0, 0) and
  receives a broadcast with "X"; a second participant then joins and receives the same
  board with "Check" in that cell.
\<close>

theorem join_message_not_substituted:
  "outbox (run init_server (one_player @ [Receive 0 first_move 0 10, Join ''g1'' False])) =
     [(0, \<lparr> op = 0, data = json_dumps [[''-'', ''-'', ''-''], [''-'', ''-'', ''-''], [''-'', ''-'', ''-'']] \<rparr>),
      (0, \<lparr> op = 0, data = json_dumps [[''X'', ''-'', ''-''], [''-'', ''-'', ''-''], [''-'', ''-'', ''-'']] \<rparr>),
      (1, \<lparr> op = 0, data = json_dumps [[''Check'', ''-'', ''-''], [''-'', ''-'', ''-''], [''-'', ''-'', ''-'']] \<rparr>)] \<and>
   json_dumps [[''Check'', ''-'', ''-''], [''-'', ''-'', ''-''], [''-'', ''-'', ''-'']] \<noteq>
   json_dumps [[''X'', ''-'', ''-''], [''-'', ''-'', ''-''], [''-'', ''-'', ''-'']]"
  by code_simp

subsection \<open>The end of a game\<close>

text \<open>
  Claim C4, as amended. When the outcome recomputed after a move is not Playing, the turn
  sends the state update and then an op 1 message whose data is "Circle", "Check" or "Draw"
  to every participant of the session, in join order; the session is not in the registry
  afterwards (it is removed when it was there), and the loop of the connection that
  processed the move stops. The other connections of the session are left as they were:
  nothing stops their loops. The registry is taken to hold no reference twice, which is so
  in every run (lemma \<open>reachable_distinct\<close>).
\<close>

theorem game_over_spec:
  assumes "loop (conn_info s c) = Active"
    and "check_game_status (board_after s c position r) \<noteq> Playing"
    and "distinct (game_instances s)"
  shows "outbox (game_receive s c position r now) =
           outbox s @ state_broadcast s c position r @ end_broadcast s c position r \<and>
         (state_value (check_game_status (board_after s c position r)) = ''Circle'' \<or>
          state_value (check_game_status (board_after s c position r)) = ''Check'' \<or>
          state_value (check_game_status (board_after s c position r)) = ''Draw'') \<and>
         session_of s c \<notin> set (game_instances (game_receive s c position r now)) \<and>
         (session_of s c \<in> set (game_instances s) \<longrightarrow>
            game_instances (game_receive s c position r now) =
              remove1 (session_of s c) (game_instances s) \<and>
            loop (conn_info (game_receive s c position r now) c) = Terminated) \<and>
         loop (conn_info (game_receive s c position r now) c) \<noteq> Active \<and>
         (\<forall>c'. c' \<noteq> c \<longrightarrow>
            conn_info (game_receive s c position r now) c' = conn_info s c') \<and>
         players (heap (game_receive s c position r now) (session_of s c)) =
           players (heap s (session_of s c))"
  using assms(3) state_value_terminal[OF assms(2)]
  by (simp add: game_receive_terminal[OF assms(1,2)] Let_def set_loop_def)

theorem game_over_spec_witness:
  "loop (conn_info (run init_server two_players) 0) = Active \<and>
   check_game_status (board_after (run init_server two_players) 0 winning_move 0) \<noteq> Playing \<and>
   distinct (game_instances (run init_server two_players)) \<and>
   game_instances (run init_server two_players) = [0] \<and>
   game_instances (game_receive (run init_server two_players) 0 winning_move 0 50) = [] \<and>
   loop (conn_info (game_receive (run init_server two_players) 0 winning_move 0 50) 0) = Terminated \<and>
   conn_info (game_receive (run init_server two_players) 0 winning_move 0 50) 1 =
     conn_info (run init_server two_players) 1"
proof -
  have h1: "loop (conn_info (run init_server two_players) 0) = Active" by code_simp
  have h2: "check_game_status (board_after (run init_server two_players) 0 winning_move 0) \<noteq> Playing"
    by code_simp
  have h3: "distinct (game_instances (run init_server two_players))" by code_simp
  have g: "session_of (run init_server two_players) 0 = 0" by code_simp
  have r: "game_instances (run init_server two_players) = [0]" by code_simp
  from game_over_spec[OF h1 h2 h3, of 50] g r
  have a: "game_instances (game_receive (run init_server two_players) 0 winning_move 0 50) = []"
    and b: "loop (conn_info (game_receive (run init_server two_players) 0 winning_move 0 50) 0) = Terminated"
    and c: "conn_info (game_receive (run init_server two_players) 0 winning_move 0 50) 1 =
     conn_info (run init_server two_players) 1"
    by simp_all
  show ?thesis by (intro conjI h1 h2 h3 r a b c)
qed

text \<open>
  Claim C4 as stated fails for a session with two participants. After four moves the first
  participant completes row 0; the outcome is Check's win, the final message goes to both,
  and the first connection's loop stops, but the second connection, still a participant of
  that session, remains in its loop. (If it then sends a move, its turn ends in the
  ValueError of the registry removal: lemma \<open>later_move_fails\<close>.)
\<close>

theorem game_over_counterexample:
  "loop (conn_info (run init_server two_players) 0) = Active \<and>
   loop (conn_info (run init_server two_players) 1) = Active \<and>
   players (heap (run init_server two_players) 0) = [0, 1] \<and>
   check_game_status (board_after (run init_server two_players) 0 winning_move 0) = Check_state \<and>
   session_of (game_receive (run init_server two_players) 0 winning_move 0 50) 1 = 0 \<and>
   players (heap (game_receive (run init_server two_players) 0 winning_move 0 50) 0) = [0, 1] \<and>
   loop (conn_info (game_receive (run init_server two_players) 0 winning_move 0 50) 1) = Active"
  by code_simp

lemma later_move_fails:
  "loop (conn_info (run init_server (two_players @
       [Receive 0 winning_move 0 50, Receive 1 first_move 0 60])) 1) = Failed ValueError"
  by code_simp

subsection \<open>Invalid moves and the automated opponent\<close>

text \<open>
  Claim C6, as amended. A placement that is invalid (a coordinate out of range or an
  occupied cell) returns False and leaves the board as it was, and no error reply is sent:
  the messages of the turn are the op 0 broadcast and, when the recomputed outcome is not
  Playing, the op 1 messages. Without the automated opponent the board after the turn is
  the board before it. With the automated opponent enabled, its random placement is made
  on the board the human attempt left, whether or not that attempt succeeded, with Circle
  when the human played Check and with Check otherwise. The loop continues exactly when
  the recomputed outcome is Playing.
\<close>

theorem invalid_move_spec:
  assumes "loop (conn_info s c) = Active"
  shows "(\<not> is_coordinate_valid (board_before s c) (pos_x position) (pos_y position) \<longrightarrow>
            place_piece (board_before s c) (pos_x position) (pos_y position) (pos_type position) =
              (False, board_before s c)) \<and>
         game_board (heap (game_receive s c position r now) (session_of s c)) =
           board_after s c position r \<and>
         (\<not> is_coordinate_valid (board_before s c) (pos_x position) (pos_y position) \<and>
          \<not> ai (conn_info s c) \<longrightarrow> board_after s c position r = board_before s c) \<and>
         (ai (conn_info s c) \<longrightarrow>
            board_after s c position r =
              snd (place_random_piece
                     (snd (place_piece (board_before s c) (pos_x position) (pos_y position)
                             (pos_type position)))
                     (ai_piece (pos_type position)) r)) \<and>
         ai_piece Check = Circle \<and> ai_piece Circle = Check \<and> ai_piece Empty = Check \<and>
         outbox (game_receive s c position r now) =
           outbox s @ state_broadcast s c position r @
           (if check_game_status (board_after s c position r) = Playing then []
            else end_broadcast s c position r) \<and>
         (loop (conn_info (game_receive s c position r now) c) = Active \<longleftrightarrow>
            check_game_status (board_after s c position r) = Playing)"
proof (cases "check_game_status (board_after s c position r) = Playing")
  case True
  show ?thesis
    using True assms
    by (simp add: game_receive_playing[OF assms True] place_piece_def move_board_def ai_piece_def)
next
  case False
  show ?thesis
    using False assms
    by (simp add: game_receive_terminal[OF assms False] Let_def set_loop_def place_piece_def
        move_board_def ai_piece_def)
qed

theorem invalid_move_spec_witness:
  "loop (conn_info (run init_server one_player) 0) = Active \<and>
   \<not> is_coordinate_valid (board_before (run init_server one_player) 0)
        (pos_x outside_move) (pos_y outside_move) \<and>
   \<not> ai (conn_info (run init_server one_player) 0) \<and>
   game_board (heap (game_receive (run init_server one_player) 0 outside_move 0 10) 0) =
     board_before (run init_server one_player) 0 \<and>
   loop (conn_info (game_receive (run init_server one_player) 0 outside_move 0 10) 0) = Active"
proof -
  have h1: "loop (conn_info (run init_server one_player) 0) = Active" by code_simp
  have h2: "\<not> is_coordinate_valid (board_before (run init_server one_player) 0)
        (pos_x outside_move) (pos_y outside_move)" by code_simp
  have h3: "\<not> ai (conn_info (run init_server one_player) 0)" by code_simp
  have g: "session_of (run init_server one_player) 0 = 0" by code_simp
  have p: "check_game_status (board_after (run init_server one_player) 0 outside_move 0) = Playing"
    by code_simp
  from invalid_move_spec[OF h1, of outside_move 0 10] h2 h3 g p
  have a: "game_board (heap (game_receive (run init_server one_player) 0 outside_move 0 10) 0) =
     board_before (run init_server one_player) 0"
    and b: "loop (conn_info (game_receive (run init_server one_player) 0 outside_move 0 10) 0) = Active"
    by simp_all
  show ?thesis by (intro conjI h1 h2 h3 a b)
qed

text \<open>
  Claim C6 as stated fails where the automated opponent ends the game. Here the human has
  twice sent a move outside the board and the opponent has put Circle on (0, 0) and (0, 1).
  The third such move is invalid again and the game is in progress, yet the opponent's
  Circle on (0, 2) completes row 0 and the loop stops instead of continuing.
\<close>

theorem invalid_move_counterexample:
  "loop (conn_info (run init_server ai_player) 0) = Active \<and>
   ai (conn_info (run init_server ai_player) 0) \<and>
   \<not> is_coordinate_valid (board_before (run init_server ai_player) 0)
        (pos_x outside_move) (pos_y outside_move) \<and>
   check_game_status (board_before (run init_server ai_player) 0) = Playing \<and>
   check_game_status (board_after (run init_server ai_player) 0 outside_move 0) = Circle_state \<and>
   loop (conn_info (game_receive (run init_server ai_player) 0 outside_move 0 30) 0) = Terminated"
  by code_simp

subsection \<open>The sweep\<close>

text \<open>
  Claim C7, as amended. After a move whose outcome is Playing, the registry is the old
  registry without the sessions whose age as the code computes it, the float difference of
  the time of the sweep and the creation time, is 600 or more; the sessions whose computed
  age is below 600 all stay, in their order. In exact terms a session stays if and only if
  the time of the sweep minus its creation time is below 600 minus 2 to the power -44 (half
  a quantum under 600, from where the difference rounds to 600). The creation time and the
  name of a session are not changed by the turn (nor by any other event: lemma
  \<open>time_never_refreshed\<close>). A lookup of a swept session's name finds nothing afterwards,
  provided no session that stays carries the same name; names are not kept unique.
\<close>

theorem sweep_spec:
  assumes "loop (conn_info s c) = Active"
    and "check_game_status (board_after s c position r) = Playing"
  shows "game_instances (game_receive s c position r now) =
           filter (\<lambda>game. float_sub now (time (heap s game)) < 600) (game_instances s) \<and>
         (\<forall>game. time (heap (game_receive s c position r now) game) = time (heap s game)) \<and>
         (\<forall>game. name (heap (game_receive s c position r now) game) = name (heap s game)) \<and>
         (\<forall>game \<in> set (game_instances s).
            game \<in> set (game_instances (game_receive s c position r now)) \<longleftrightarrow>
              now - time (heap s game) < 600 - 1 / 2 ^ 44) \<and>
         (\<forall>game \<in> set (game_instances s).
            600 - 1 / 2 ^ 44 \<le> now - time (heap s game) \<and>
            (\<forall>other \<in> set (game_instances (game_receive s c position r now)).
               name (heap s other) \<noteq> name (heap s game)) \<longrightarrow>
            find_game (game_receive s c position r now) (name (heap s game)) = None)"
  by (auto simp: game_receive_playing[OF assms] find_game_def find_None_iff float_sub_less_600)

theorem sweep_spec_witness:
  "loop (conn_info (run init_server one_player) 0) = Active \<and>
   check_game_status (board_after (run init_server one_player) 0 first_move 0) = Playing \<and>
   game_instances (run init_server one_player) = [0] \<and>
   game_instances (game_receive (run init_server one_player) 0 first_move 0 600) = [] \<and>
   find_game (game_receive (run init_server one_player) 0 first_move 0 600) ''g1'' = None \<and>
   game_instances (game_receive (run init_server one_player) 0 first_move 0 599) = [0]"
proof -
  have h1: "loop (conn_info (run init_server one_player) 0) = Active" by code_simp
  have h2: "check_game_status (board_after (run init_server one_player) 0 first_move 0) = Playing"
    by code_simp
  have r: "game_instances (run init_server one_player) = [0]" by code_simp
  have t: "time (heap (run init_server one_player) 0) = 0" by code_simp
  have n: "name (heap (run init_server one_player) 0) = ''g1''" by code_simp
  from sweep_spec[OF h1 h2, of 600] r t n
  have a: "game_instances (game_receive (run init_server one_player) 0 first_move 0 600) = []"
    by (simp add: float_sub_less_600)
  from sweep_spec[OF h1 h2, of 600] r t n a
  have b: "find_game (game_receive (run init_server one_player) 0 first_move 0 600) ''g1'' = None"
    by (simp add: float_sub_less_600)
  from sweep_spec[OF h1 h2, of 599] r t
  have c: "game_instances (game_receive (run init_server one_player) 0 first_move 0 599) = [0]"
    by (simp add: float_sub_less_600)
  show ?thesis by (intro conjI h1 h2 r a b c)
qed

text \<open>
  The age is the difference of two floats, and so rounded. A session created when the clock
  read 0.3 and swept when it reads 600.3 (the two doubles written that way) has an exact
  age a little below 600, which the subtraction rounds to 600: the session is swept.
\<close>

lemma sweep_rounds_the_age:
  "2640147320615731 / 4398046511104 - 5404319552844595 / 18014398509481984 < (600::real) \<and>
   float_sub (2640147320615731 / 4398046511104) (5404319552844595 / 18014398509481984) = 600 \<and>
   game_instances
     (run init_server
        [Create 3 (Some ''g1'') ''generated'' (5404319552844595 / 18014398509481984),
         Join ''g1'' False,
         Receive 0 first_move 0 (2640147320615731 / 4398046511104)]) = []"
  by code_simp

text \<open>
  Claim C7 as stated fails when a name is used twice. Two sessions are created under the
  name "g1", at times 0 and 500. The sweep at time 700 removes the first, and a lookup of
  its name then finds the second instead of nothing.
\<close>

theorem sweep_counterexample:
  "loop (conn_info (run init_server same_name) 0) = Active \<and>
   game_instances (run init_server same_name) = [0, 1] \<and>
   name (heap (run init_server same_name) 0) = ''g1'' \<and>
   600 \<le> 700 - time (heap (run init_server same_name) 0) \<and>
   check_game_status (board_after (run init_server same_name) 0 first_move 0) = Playing \<and>
   game_instances (game_receive (run init_server same_name) 0 first_move 0 700) = [1] \<and>
   find_game (game_receive (run init_server same_name) 0 first_move 0 700) ''g1'' = Some 1"
  by code_simp

subsection \<open>Removal from the registry\<close>

text \<open>
  Claim C8 does not hold of the code: \<^verbatim>\<open>game_instances.remove\<close> raises ValueError for a
  session that is no longer in the list, and the handler does not catch it. In the run
  below the only participant of a session sends a move 700 time units after the creation;
  the sweep of that turn removes the session, the connection stays in its loop, and its
  disconnect then empties the participant list and fails in the removal. In general the
  cleanup of a last participant succeeds exactly when the session is still registered
  (lemmas \<open>disconnect_registered\<close> and \<open>disconnect_unregistered\<close>).
\<close>

lemma disconnect_unregistered:
  assumes "loop (conn_info s c) = Active"
    and "players (heap s (session_of s c)) = [c]"
    and "session_of s c \<notin> set (game_instances s)"
  shows "loop (conn_info (game_disconnect s c) c) = Failed ValueError"
  using assms by (simp add: game_disconnect_def list_remove_def set_loop_def Let_def)

lemma disconnect_registered:
  assumes "loop (conn_info s c) = Active"
    and "players (heap s (session_of s c)) = [c]"
    and "session_of s c \<in> set (game_instances s)"
  shows "loop (conn_info (game_disconnect s c) c) = Terminated \<and>
         game_instances (game_disconnect s c) = remove1 (session_of s c) (game_instances s)"
  using assms by (simp add: game_disconnect_def list_remove_def set_loop_def Let_def)

theorem disconnect_after_sweep_fails:
  "game_instances (run init_server (one_player @ [Receive 0 first_move 0 700])) = [] \<and>
   loop (conn_info (run init_server (one_player @ [Receive 0 first_move 0 700])) 0) = Active \<and>
   players (heap (run init_server (one_player @ [Receive 0 first_move 0 700])) 0) = [0] \<and>
   list_remove (0::nat) [] = Inl ValueError \<and>
   loop (conn_info (run init_server (one_player @ [Receive 0 first_move 0 700, Disconnect 0])) 0) =
     Failed ValueError"
  by code_simp


end
